theory Spec2Isabelle
  imports Complex_Main "HOL-Library.Sublist" "HOL-Library.AList"
begin

section \<open>The DuckDuckGo search client (duckduckgo\_search.py, class DDGS)\<close>

text \<open>
  A shallow embedding of the class \<^verbatim>\<open>DDGS\<close>. Python strings and byte strings are
  \<open>string\<close>, Python ints are \<open>int\<close>, an exception raised by a method is the \<open>Inl\<close> side of
  its result, and the attributes of the instance that a method mutates are a record that the
  method takes and returns.

  The module \<^verbatim>\<open>utils.py\<close> (\<^verbatim>\<open>_normalize\<close>, \<^verbatim>\<open>_normalize_url\<close>, \<^verbatim>\<open>_extract_vqd\<close>,
  \<^verbatim>\<open>_text_extract_json\<close>, \<^verbatim>\<open>_calculate_distance\<close>), the HTTP client \<^verbatim>\<open>primp\<close> and the HTML
  parser \<^verbatim>\<open>lxml\<close> are not part of the sources: they are parameters of the model (the record
  \<open>env\<close> below, and for \<^verbatim>\<open>_calculate_distance\<close> an argument of \<open>maps_round\<close>), so every
  theorem holds for whatever they compute. The thread pool is modelled by running its tasks
  one after the other in the order their results are read.
\<close>

subsection \<open>Exceptions\<close>

datatype error =
    DuckDuckGoSearchException string
  | RatelimitException string
  | TimeoutException string
  | ConversationLimitException string
  | KeyError string
  | UnboundLocalError string
  | ValueError string
  | TypeError string
  | AssertionError string
  | ParserError string
  | ClientError string string

subsection \<open>Small string functions of Python\<close>

definition lower_char :: "char \<Rightarrow> char" where
  "lower_char c =
     (let n = (of_char c :: nat) in if 65 \<le> n \<and> n \<le> 90 then char_of (n + 32) else c)"

text \<open>\<^verbatim>\<open>str.lower\<close>, on the ASCII letters.\<close>
definition lower :: "string \<Rightarrow> string" where
  "lower s = map lower_char s"

text \<open>\<^verbatim>\<open>a in b\<close> on strings: \<open>a\<close> is a contiguous part of \<open>b\<close>.\<close>
definition str_in :: "string \<Rightarrow> string \<Rightarrow> bool" where
  "str_in a b = sublist a b"

text \<open>\<^verbatim>\<open>s.startswith((p1, p2))\<close>.\<close>
definition startswith :: "string \<Rightarrow> string list \<Rightarrow> bool" where
  "startswith s ps = list_ex (\<lambda>p. prefix p s) ps"

definition digit_char :: "nat \<Rightarrow> char" where
  "digit_char d = char_of (48 + d)"

function str_nat :: "nat \<Rightarrow> string" where
  "str_nat n = (if n < 10 then [digit_char n] else str_nat (n div 10) @ [digit_char (n mod 10)])"
  by pat_completeness auto
termination
  by (relation "measure (\<lambda>n. n)") auto

declare str_nat.simps [simp del]

text \<open>\<^verbatim>\<open>str(i)\<close> and \<^verbatim>\<open>f"{i}"\<close> for an int.\<close>
definition str_int :: "int \<Rightarrow> string" where
  "str_int i = (if i < 0 then CHR ''-'' # str_nat (nat (- i)) else str_nat (nat i))"

subsection \<open>The transport: \<^verbatim>\<open>_get_url\<close>\<close>

text \<open>
  A request of \<^verbatim>\<open>self.client.request(method, url, params=..., content=..., data=...)\<close>. The
  payload dictionaries are association lists in the order the source fills them.
\<close>
record request =
  req_method :: string
  req_url :: string
  req_params :: "(string \<times> string) list"
  req_content :: "string option"
  req_data :: "(string \<times> string) list"

text \<open>The response object: \<^verbatim>\<open>resp.url\<close>, \<^verbatim>\<open>resp.status_code\<close>, \<^verbatim>\<open>resp.content\<close>.\<close>
record response =
  resp_url :: string
  status_code :: int
  content :: string

text \<open>An exception of the client: \<^verbatim>\<open>type(ex).__name__\<close> and \<^verbatim>\<open>str(ex)\<close>.\<close>
record client_exception =
  ex_type :: string
  ex_str :: string

text \<open>One entry of the JSON array that \<^verbatim>\<open>_text_extract_json\<close> returns: a dictionary.\<close>
type_synonym api_row = "string \<Rightarrow> string option"

text \<open>
  What \<^verbatim>\<open>lxml\<close> selects from a page of \<^verbatim>\<open>html.duckduckgo.com\<close>: one entry per element of
  \<^verbatim>\<open>//div[h2]\<close>, holding the results of the three XPath queries the source runs on it.
\<close>
record html_element =
  a_href :: "string list"
  h2_a_text :: "string list"
  a_text :: "string list"

text \<open>
  What \<^verbatim>\<open>lxml\<close> selects from a page of \<^verbatim>\<open>lite.duckduckgo.com\<close>: one entry per row of
  \<^verbatim>\<open>//table[last()]//tr\<close>, holding the results of the three XPath queries run on a row.
\<close>
record lite_row =
  row_href :: "string list"
  row_a_text :: "string list"
  row_snippet :: "string list"

text \<open>A turn of the chat: \<^verbatim>\<open>{"role": ..., "content": ...}\<close>.\<close>
record chat_message =
  role :: string
  msg_content :: string

text \<open>A JSON value of a chat fragment (null, a boolean, an integer or a string).\<close>
datatype json = JNull | JBool bool | JInt int | JStr string

text \<open>One decoded fragment of a chat response: a dictionary.\<close>
type_synonym fragment = "string \<Rightarrow> json option"

text \<open>The response of the chat endpoint: \<^verbatim>\<open>resp.headers.get\<close> and \<^verbatim>\<open>resp.text\<close>.\<close>
record chat_response =
  chat_headers :: "string \<Rightarrow> string option"
  chat_text :: string

text \<open>
  The collaborators that are not in the sources. The client answers a request knowing the
  requests made before it (so two equal requests may be answered differently). \<open>chat_status\<close> is the outcome of
  \<^verbatim>\<open>self.client.get\<close> on the status URL of the chat (the headers of the response),
  \<open>chat_post\<close> the outcome of \<^verbatim>\<open>self.client.post\<close> on the chat URL for a token, a model, the
  messages and a timeout, and \<open>json_fragments\<close> stands for lines 174-175 of \<^verbatim>\<open>chat\<close>, which
  reassemble \<^verbatim>\<open>resp.text\<close> into a JSON array and decode it with \<^verbatim>\<open>json_loads\<close>.
\<close>
record env =
  client_request :: "request list \<Rightarrow> request \<Rightarrow> client_exception + response"
  extract_vqd :: "string \<Rightarrow> string \<Rightarrow> error + string"
  text_extract_json :: "string \<Rightarrow> string \<Rightarrow> error + api_row list"
  normalize :: "string \<Rightarrow> string"
  normalize_url :: "string \<Rightarrow> string"
  html_xpath :: "string \<Rightarrow> error + html_element list"
  lite_xpath :: "string \<Rightarrow> error + lite_row list"
  lxml_available :: bool
  chat_status :: "client_exception + (string \<Rightarrow> string option)"
  chat_post :: "string \<Rightarrow> string \<Rightarrow> chat_message list \<Rightarrow> int \<Rightarrow> client_exception + chat_response"
  json_fragments :: "string \<Rightarrow> error + fragment list"

text \<open>
  The attributes of a \<^verbatim>\<open>DDGS\<close> instance that its methods change. \<open>exception_event\<close> is
  \<^verbatim>\<open>self._exception_event.is_set()\<close>. \<open>requests_made\<close> is not an attribute of the source: it records
  every call of \<^verbatim>\<open>self.client.request\<close>, oldest first, so that "no network I/O" can be stated.
\<close>
record ddgs =
  exception_event :: bool
  requests_made :: "request list"
  chat_messages :: "chat_message list"
  chat_tokens_count :: int
  chat_vqd :: string

text \<open>\<^verbatim>\<open>__init__\<close> (lines 85-88): the event is clear, the chat state is empty.\<close>
definition init :: ddgs where
  "init = \<lparr>exception_event = False, requests_made = [], chat_messages = [],
            chat_tokens_count = 0, chat_vqd = []\<rparr>"

text \<open>
  \<^verbatim>\<open>_get_url\<close> (lines 106-129). The message of the last \<^verbatim>\<open>DuckDuckGoSearchException\<close> ends, in
  the source, with the \<^verbatim>\<open>repr\<close> of the three payload arguments; the model stops the message
  before them.
\<close>
definition get_url :: "env \<Rightarrow> ddgs \<Rightarrow> request \<Rightarrow> ddgs \<times> (error + string)" where
  "get_url e st rq =
     (if exception_event st then
        (st, Inl (DuckDuckGoSearchException ''Exception occurred in previous call.''))
      else
        (let st1 = st\<lparr>requests_made := requests_made st @ [rq]\<rparr> in
         case client_request e (requests_made st) rq of
           Inl ex \<Rightarrow>
             (let st2 = st1\<lparr>exception_event := True\<rparr>;
                  msg = req_url rq @ '' '' @ ex_type ex @ '': '' @ ex_str ex
              in if str_in ''time'' (lower (ex_str ex))
                 then (st2, Inl (TimeoutException msg))
                 else (st2, Inl (DuckDuckGoSearchException msg)))
         | Inr resp \<Rightarrow>
             if status_code resp = 200 then (st1, Inr (content resp))
             else
               (let st2 = st1\<lparr>exception_event := True\<rparr> in
                if status_code resp \<in> {202, 301, 403}
                then (st2, Inl (RatelimitException
                        (resp_url resp @ '' '' @ str_int (status_code resp) @ '' Ratelimit'')))
                else (st2, Inl (DuckDuckGoSearchException (resp_url resp @ '' return None.''))))))"

text \<open>A sequence of \<^verbatim>\<open>_get_url\<close> calls on one instance, with the result of each.\<close>
fun get_urls :: "env \<Rightarrow> ddgs \<Rightarrow> request list \<Rightarrow> ddgs \<times> (error + string) list" where
  "get_urls e st [] = (st, [])"
| "get_urls e st (rq # rqs) =
     (case get_url e st rq of
        (st1, r) \<Rightarrow> (case get_urls e st1 rqs of (st2, rs) \<Rightarrow> (st2, r # rs)))"

subsection \<open>Page offsets and truncation\<close>

text \<open>
  \<^verbatim>\<open>range(start, stop, step)\<close> as a list, for a positive step (every step of the source is a
  positive constant).
\<close>
function py_range :: "int \<Rightarrow> int \<Rightarrow> int \<Rightarrow> int list" where
  "py_range start stop step =
     (if 0 < step \<and> start < stop then start # py_range (start + step) stop step else [])"
  by pat_completeness auto
termination
  by (relation "measure (\<lambda>(start, stop, step). nat (stop - start))") auto

declare py_range.simps [simp del]

text \<open>
  The four lines every paginated search repeats with its own constants (text: lines 310-313,
  400-403, 498-501; images: 596-599; videos: 673-676; news: 750-753):
  \<^verbatim>\<open>
  slist = [0]
  if max_results:
      max_results = min(max_results, limit)
      slist.extend(range(first, max_results, stride))
  \<close>
  The result is the offset list and the value \<^verbatim>\<open>max_results\<close> has afterwards. \<^verbatim>\<open>None\<close> and
  \<open>0\<close> are the two values the \<^verbatim>\<open>if\<close> takes for false.
\<close>
definition slist_of :: "int \<Rightarrow> int \<Rightarrow> int \<Rightarrow> int option \<Rightarrow> int list \<times> int option" where
  "slist_of limit first stride max_results =
     (case max_results of
        None \<Rightarrow> ([0], None)
      | Some n \<Rightarrow>
          if n \<noteq> 0 then
            (let n' = min n limit in (0 # py_range first n' stride, Some n'))
          else ([0], Some n))"

definition text_slist :: "int option \<Rightarrow> int list \<times> int option" where
  "text_slist = slist_of 2023 23 50"

definition images_slist :: "int option \<Rightarrow> int list \<times> int option" where
  "images_slist = slist_of 500 100 100"

definition videos_slist :: "int option \<Rightarrow> int list \<times> int option" where
  "videos_slist = slist_of 400 60 60"

definition news_slist :: "int option \<Rightarrow> int list \<times> int option" where
  "news_slist = slist_of 120 30 30"

text \<open>\<^verbatim>\<open>list(islice(results, max_results))\<close>: \<^verbatim>\<open>islice\<close> refuses a negative stop.\<close>
definition islice :: "'a list \<Rightarrow> int option \<Rightarrow> error + 'a list" where
  "islice results stop =
     (case stop of
        None \<Rightarrow> Inr results
      | Some n \<Rightarrow>
          if n < 0 then
            Inl (ValueError
              ''Stop argument for islice() must be None or an integer: 0 <= x <= sys.maxsize.'')
          else Inr (take (nat n) results))"

text \<open>
  \<^verbatim>\<open>for r in self._executor.map(page, slist): results.extend(r)\<close>, with the exception of a page
  re-raised. The pool runs the pages concurrently and yields their results in the order of
  \<open>slist\<close>; the model runs them one after the other in that order, each on the state and the
  cache the one before left, and stops at the first page that raises.
\<close>
fun executor_map :: "(int \<Rightarrow> 's \<Rightarrow> 's \<times> (error + 'r list)) \<Rightarrow> int list \<Rightarrow> 's \<Rightarrow> 'r list
    \<Rightarrow> 's \<times> (error + 'r list)" where
  "executor_map page [] sc results = (sc, Inr results)"
| "executor_map page (s # slist) sc results =
     (case page s sc of
        (sc1, Inl err) \<Rightarrow> (sc1, Inl err)
      | (sc1, Inr r) \<Rightarrow> executor_map page slist sc1 (results @ r))"

subsection \<open>Text search: the token and the three backends\<close>

text \<open>\<^verbatim>\<open>_get_vqd\<close> (lines 131-134).\<close>
definition get_vqd :: "env \<Rightarrow> ddgs \<Rightarrow> string \<Rightarrow> ddgs \<times> (error + string)" where
  "get_vqd e st keywords =
     (case get_url e st
             \<lparr>req_method = ''POST'', req_url = ''https://duckduckgo.com'', req_params = [],
              req_content = None, req_data = [(''q'', keywords)]\<rparr> of
        (st1, Inl err) \<Rightarrow> (st1, Inl err)
      | (st1, Inr resp_content) \<Rightarrow> (st1, extract_vqd e resp_content keywords))"

text \<open>A text result: \<^verbatim>\<open>{"title": ..., "href": ..., "body": ...}\<close>.\<close>
record text_result =
  title :: string
  href :: string
  body :: string

definition upper_char :: "char \<Rightarrow> char" where
  "upper_char c =
     (let n = (of_char c :: nat) in if 97 \<le> n \<and> n \<le> 122 then char_of (n - 32) else c)"

text \<open>\<^verbatim>\<open>str.upper\<close>, on the ASCII letters.\<close>
definition upper :: "string \<Rightarrow> string" where
  "upper s = map upper_char s"

text \<open>\<^verbatim>\<open>f"http://www.google.com/search?q={keywords}"\<close> (line 298).\<close>
definition google_search_url :: "string \<Rightarrow> string" where
  "google_search_url keywords = ''http://www.google.com/search?q='' @ keywords"

text \<open>
  The loop over \<^verbatim>\<open>page_data\<close> in \<^verbatim>\<open>_text_api_page\<close> (lines 295-308). \<open>cache\<close> is the set the
  pages of one search share; \<open>page_results\<close> is the list the page returns. \<^verbatim>\<open>row["a"]\<close> and
  \<^verbatim>\<open>row["t"]\<close> raise \<^verbatim>\<open>KeyError\<close> on a row without the key, after the href is in the cache.
\<close>
fun text_api_rows :: "env \<Rightarrow> string \<Rightarrow> api_row list \<Rightarrow> string set \<Rightarrow> text_result list
    \<Rightarrow> string set \<times> (error + text_result list)" where
  "text_api_rows e keywords [] cache page_results = (cache, Inr page_results)"
| "text_api_rows e keywords (row # page_data) cache page_results =
     (case row ''u'' of
        None \<Rightarrow> text_api_rows e keywords page_data cache page_results
      | Some h \<Rightarrow>
          if h \<noteq> [] \<and> h \<notin> cache \<and> h \<noteq> google_search_url keywords then
            (case row ''a'' of
               None \<Rightarrow> (insert h cache, Inl (KeyError ''a''))
             | Some a \<Rightarrow>
                 if normalize e a \<noteq> [] then
                   (case row ''t'' of
                      None \<Rightarrow> (insert h cache, Inl (KeyError ''t''))
                    | Some t \<Rightarrow>
                        text_api_rows e keywords page_data (insert h cache)
                          (page_results @
                             [\<lparr>title = normalize e t, href = normalize_url e h,
                               body = normalize e a\<rparr>]))
                 else text_api_rows e keywords page_data (insert h cache) page_results)
          else text_api_rows e keywords page_data cache page_results)"

text \<open>
  \<^verbatim>\<open>_text_api_page\<close> (lines 291-308). \<open>sc\<close> is the instance with the cache of this search.
\<close>
definition text_api_page :: "env \<Rightarrow> string \<Rightarrow> (string \<times> string) list \<Rightarrow> int
    \<Rightarrow> ddgs \<times> string set \<Rightarrow> (ddgs \<times> string set) \<times> (error + text_result list)" where
  "text_api_page e keywords payload s sc =
     (case sc of (st, cache) \<Rightarrow>
        (case get_url e st
                \<lparr>req_method = ''GET'', req_url = ''https://links.duckduckgo.com/d.js'',
                 req_params = AList.update ''s'' (str_int s) payload,
                 req_content = None, req_data = []\<rparr> of
           (st1, Inl err) \<Rightarrow> ((st1, cache), Inl err)
         | (st1, Inr resp_content) \<Rightarrow>
             (case text_extract_json e resp_content keywords of
                Inl err \<Rightarrow> ((st1, cache), Inl err)
              | Inr page_data \<Rightarrow>
                  (case text_api_rows e keywords page_data cache [] of
                     (cache1, r) \<Rightarrow> ((st1, cache1), r)))))"

text \<open>The payload of \<^verbatim>\<open>_text_api\<close> (lines 267-286).\<close>
definition text_api_payload :: "string \<Rightarrow> string \<Rightarrow> string \<Rightarrow> string option \<Rightarrow> string
    \<Rightarrow> (string \<times> string) list" where
  "text_api_payload keywords region safesearch timelimit vqd =
     (let payload =
            [(''q'', keywords), (''kl'', region), (''l'', region), (''p'', []), (''s'', ''0''),
             (''df'', []), (''vqd'', vqd),
             (''bing_market'', drop 3 region @ ''-'' @ upper (take 2 region)), (''ex'', [])];
          safesearch1 = lower safesearch;
          payload1 =
            (if safesearch1 = ''moderate'' then AList.update ''ex'' ''-1'' payload
             else if safesearch1 = ''off'' then AList.update ''ex'' ''-2'' payload
             else if safesearch1 = ''on'' then AList.update ''p'' ''1'' payload
             else payload)
      in case timelimit of
           None \<Rightarrow> payload1
         | Some tlim \<Rightarrow> if tlim \<noteq> [] then AList.update ''df'' tlim payload1 else payload1)"

text \<open>\<^verbatim>\<open>_text_api\<close> (lines 238-320).\<close>
definition text_api :: "env \<Rightarrow> ddgs \<Rightarrow> string \<Rightarrow> string \<Rightarrow> string \<Rightarrow> string option \<Rightarrow> int option
    \<Rightarrow> ddgs \<times> (error + text_result list)" where
  "text_api e st keywords region safesearch timelimit max_results =
     (if keywords = [] then (st, Inl (AssertionError ''keywords is mandatory''))
      else
        case get_vqd e st keywords of
          (st1, Inl err) \<Rightarrow> (st1, Inl err)
        | (st1, Inr vqd) \<Rightarrow>
            (case text_slist max_results of
               (slist, max_results1) \<Rightarrow>
                 (case executor_map
                         (text_api_page e keywords
                            (text_api_payload keywords region safesearch timelimit vqd))
                         slist (st1, {}) [] of
                    ((st2, cache), Inl err) \<Rightarrow> (st2, Inl err)
                  | ((st2, cache), Inr results) \<Rightarrow> (st2, islice results max_results1))))"


text \<open>The two link prefixes the HTML backends filter out (a Google search link, an ad).\<close>
definition filtered_prefixes :: "string list" where
  "filtered_prefixes =
     [''http://www.google.com/search?q='', ''https://duckduckgo.com/y.js?ad_domain'']"

text \<open>\<^verbatim>\<open>str(xs[0]) if xs else None\<close> on the list an XPath query returns.\<close>
definition first_or_None :: "string list \<Rightarrow> string option" where
  "first_or_None xs = (case xs of [] \<Rightarrow> None | x # _ \<Rightarrow> Some x)"

text \<open>\<^verbatim>\<open>str(xs[0]) if xs else ""\<close>.\<close>
definition first_or_empty :: "string list \<Rightarrow> string" where
  "first_or_empty xs = (case xs of [] \<Rightarrow> [] | x # _ \<Rightarrow> x)"

text \<open>The loop over \<^verbatim>\<open>elements\<close> in \<^verbatim>\<open>_text_html_page\<close> (lines 376-397).\<close>
fun text_html_rows :: "env \<Rightarrow> html_element list \<Rightarrow> string set \<Rightarrow> text_result list
    \<Rightarrow> string set \<times> text_result list" where
  "text_html_rows e [] cache page_results = (cache, page_results)"
| "text_html_rows e (el # elements) cache page_results =
     (case first_or_None (a_href el) of
        None \<Rightarrow> text_html_rows e elements cache page_results
      | Some h \<Rightarrow>
          if h \<noteq> [] \<and> h \<notin> cache \<and> \<not> startswith h filtered_prefixes then
            text_html_rows e elements (insert h cache)
              (page_results @
                 [\<lparr>title = normalize e (first_or_empty (h2_a_text el)),
                   href = normalize_url e h,
                   body = normalize e (concat (a_text el))\<rparr>])
          else text_html_rows e elements cache page_results)"

text \<open>\<^verbatim>\<open>_text_html_page\<close> (lines 365-398).\<close>
definition text_html_page :: "env \<Rightarrow> (string \<times> string) list \<Rightarrow> int
    \<Rightarrow> ddgs \<times> string set \<Rightarrow> (ddgs \<times> string set) \<times> (error + text_result list)" where
  "text_html_page e payload s sc =
     (case sc of (st, cache) \<Rightarrow>
        (case get_url e st
                \<lparr>req_method = ''POST'', req_url = ''https://html.duckduckgo.com/html'',
                 req_params = [], req_content = None,
                 req_data = AList.update ''s'' (str_int s) payload\<rparr> of
           (st1, Inl err) \<Rightarrow> ((st1, cache), Inl err)
         | (st1, Inr resp_content) \<Rightarrow>
             if str_in ''No  results.'' resp_content then ((st1, cache), Inr [])
             else
               (case html_xpath e resp_content of
                  Inl err \<Rightarrow> ((st1, cache), Inl err)
                | Inr elements \<Rightarrow>
                    (case text_html_rows e elements cache [] of
                       (cache1, page_results) \<Rightarrow> ((st1, cache1), Inr page_results)))))"

text \<open>The payload of \<^verbatim>\<open>_text_html\<close> and of \<^verbatim>\<open>_text_lite\<close> (lines 347-357, 437-447).\<close>
definition text_html_payload :: "string \<Rightarrow> string \<Rightarrow> string option \<Rightarrow> (string \<times> string) list" where
  "text_html_payload keywords region timelimit =
     (let payload =
            [(''q'', keywords), (''s'', ''0''), (''o'', ''json''), (''api'', ''d.js''),
             (''vqd'', []), (''kl'', region), (''bing_market'', region)]
      in case timelimit of
           None \<Rightarrow> payload
         | Some tlim \<Rightarrow> if tlim \<noteq> [] then AList.update ''df'' tlim payload else payload)"

text \<open>\<^verbatim>\<open>_text_html\<close> (lines 322-410).\<close>
definition text_html :: "env \<Rightarrow> ddgs \<Rightarrow> string \<Rightarrow> string \<Rightarrow> string option \<Rightarrow> int option
    \<Rightarrow> ddgs \<times> (error + text_result list)" where
  "text_html e st keywords region timelimit max_results =
     (if keywords = [] then (st, Inl (AssertionError ''keywords is mandatory''))
      else
        case (case max_results of
                Some n \<Rightarrow>
                  if n \<noteq> 0 \<and> n > 20 then
                    (case get_vqd e st keywords of
                       (st1, Inl err) \<Rightarrow> (st1, Inl err)
                     | (st1, Inr vqd) \<Rightarrow>
                         (st1, Inr (AList.update ''vqd'' vqd
                                      (text_html_payload keywords region timelimit))))
                  else (st, Inr (text_html_payload keywords region timelimit))
              | None \<Rightarrow> (st, Inr (text_html_payload keywords region timelimit))) of
          (st1, Inl err) \<Rightarrow> (st1, Inl err)
        | (st1, Inr payload) \<Rightarrow>
            (case text_slist max_results of
               (slist, max_results1) \<Rightarrow>
                 (case executor_map (text_html_page e payload) slist (st1, {}) [] of
                    ((st2, cache), Inl err) \<Rightarrow> (st2, Inl err)
                  | ((st2, cache), Inr results) \<Rightarrow> (st2, islice results max_results1))))"

text \<open>The ASCII characters \<^verbatim>\<open>str.strip()\<close> removes.\<close>
definition is_space :: "char \<Rightarrow> bool" where
  "is_space c = (let n = (of_char c :: nat) in (9 \<le> n \<and> n \<le> 13) \<or> (28 \<le> n \<and> n \<le> 32))"

definition strip :: "string \<Rightarrow> string" where
  "strip s = rev (dropWhile is_space (rev (dropWhile is_space s)))"

text \<open>
  A local variable of a Python function: reading it before its first assignment raises
  \<^verbatim>\<open>UnboundLocalError\<close>.
\<close>
datatype 'a local = Unbound | Bound 'a

text \<open>
  The variables the row loop of \<^verbatim>\<open>_text_lite_page\<close> reads and writes: the shared \<open>cache\<close>,
  the locals \<^verbatim>\<open>href\<close> and \<^verbatim>\<open>title\<close> (which keep their value from one row to the next) and
  \<open>page_results\<close>.
\<close>
record lite_vars =
  lv_cache :: "string set"
  lv_href :: "string option local"
  lv_title :: "string local"
  lv_page_results :: "text_result list"

text \<open>\<^verbatim>\<open>zip(cycle(range(1, 5)), elements)\<close>: every row with its position 1, 2, 3, 4, 1, ...\<close>
definition zip_cycle :: "'a list \<Rightarrow> (nat \<times> 'a) list" where
  "zip_cycle elements = zip (map (\<lambda>k. k mod 4 + 1) [0..<length elements]) elements"

text \<open>
  The loop \<^verbatim>\<open>for i, e in data\<close> of \<^verbatim>\<open>_text_lite_page\<close> (lines 465-495). \<open>data\<close> is what is left of
  the iterator; \<^verbatim>\<open>[next(data, None) for _ in range(3)]\<close> takes three more items off it (or as
  many as are left). Every item of \<^verbatim>\<open>//tr\<close> is an \<^verbatim>\<open>_Element\<close>.
\<close>
function text_lite_rows :: "env \<Rightarrow> (nat \<times> lite_row) list \<Rightarrow> lite_vars
    \<Rightarrow> lite_vars \<times> (error + text_result list)" where
  "text_lite_rows e [] v = (v, Inr (lv_page_results v))"
| "text_lite_rows e ((i, el) # data) v =
     (if i = 1 then
        (let href1 = first_or_None (row_href el) in
         case href1 of
           None \<Rightarrow> text_lite_rows e (drop 3 data) (v\<lparr>lv_href := Bound href1\<rparr>)
         | Some h \<Rightarrow>
             if h \<in> lv_cache v \<or> startswith h filtered_prefixes then
               text_lite_rows e (drop 3 data) (v\<lparr>lv_href := Bound href1\<rparr>)
             else
               text_lite_rows e data
                 (v\<lparr>lv_cache := insert h (lv_cache v), lv_href := Bound href1,
                    lv_title := Bound (first_or_empty (row_a_text el))\<rparr>))
      else if i = 2 then
        (let body1 = strip (concat (row_snippet el)) in
         case lv_href v of
           Unbound \<Rightarrow> (v, Inl (UnboundLocalError ''href''))
         | Bound None \<Rightarrow> text_lite_rows e data v
         | Bound (Some h) \<Rightarrow>
             if h \<noteq> [] then
               (case lv_title v of
                  Unbound \<Rightarrow> (v, Inl (UnboundLocalError ''title''))
                | Bound t \<Rightarrow>
                    text_lite_rows e data
                      (v\<lparr>lv_page_results := lv_page_results v @
                           [\<lparr>title = normalize e t, href = normalize_url e h,
                             body = normalize e body1\<rparr>]\<rparr>))
             else text_lite_rows e data v)
      else text_lite_rows e data v)"
  by pat_completeness auto
termination
  by (relation "measure (\<lambda>(e, data, v). length data)") auto

text \<open>\<^verbatim>\<open>_text_lite_page\<close> (lines 452-496).\<close>
definition text_lite_page :: "env \<Rightarrow> (string \<times> string) list \<Rightarrow> int
    \<Rightarrow> ddgs \<times> string set \<Rightarrow> (ddgs \<times> string set) \<times> (error + text_result list)" where
  "text_lite_page e payload s sc =
     (case sc of (st, cache) \<Rightarrow>
        (case get_url e st
                \<lparr>req_method = ''POST'', req_url = ''https://lite.duckduckgo.com/lite/'',
                 req_params = [], req_content = None,
                 req_data = AList.update ''s'' (str_int s) payload\<rparr> of
           (st1, Inl err) \<Rightarrow> ((st1, cache), Inl err)
         | (st1, Inr resp_content) \<Rightarrow>
             if str_in ''No more results.'' resp_content then ((st1, cache), Inr [])
             else
               (case lite_xpath e resp_content of
                  Inl err \<Rightarrow> ((st1, cache), Inl err)
                | Inr elements \<Rightarrow>
                    (case text_lite_rows e (zip_cycle elements)
                            \<lparr>lv_cache = cache, lv_href = Unbound, lv_title = Unbound,
                             lv_page_results = []\<rparr> of
                       (v, r) \<Rightarrow> ((st1, lv_cache v), r)))))"

text \<open>\<^verbatim>\<open>_text_lite\<close> (lines 412-508).\<close>
definition text_lite :: "env \<Rightarrow> ddgs \<Rightarrow> string \<Rightarrow> string \<Rightarrow> string option \<Rightarrow> int option
    \<Rightarrow> ddgs \<times> (error + text_result list)" where
  "text_lite e st keywords region timelimit max_results =
     (if keywords = [] then (st, Inl (AssertionError ''keywords is mandatory''))
      else
        case text_slist max_results of
          (slist, max_results1) \<Rightarrow>
            (case executor_map
                    (text_lite_page e (text_html_payload keywords region timelimit))
                    slist (st, {}) [] of
               ((st2, cache), Inl err) \<Rightarrow> (st2, Inl err)
             | ((st2, cache), Inr results) \<Rightarrow> (st2, islice results max_results1)))"

text \<open>
  \<^verbatim>\<open>text\<close> (lines 196-236). With a backend that is none of the three, no branch assigns
  \<^verbatim>\<open>results\<close> and \<^verbatim>\<open>return results\<close> raises \<^verbatim>\<open>UnboundLocalError\<close>. (\<open>text\<close> is a
  keyword of Isabelle, hence the name.)
\<close>
definition ddgs_text :: "env \<Rightarrow> ddgs \<Rightarrow> string \<Rightarrow> string \<Rightarrow> string \<Rightarrow> string option \<Rightarrow> string
    \<Rightarrow> int option \<Rightarrow> ddgs \<times> (error + text_result list)" where
  "ddgs_text e st keywords region safesearch timelimit backend max_results =
     (let backend1 = (if \<not> lxml_available e \<and> backend \<noteq> ''api'' then ''api'' else backend)
      in if backend1 = ''api'' then
           text_api e st keywords region safesearch timelimit max_results
         else if backend1 = ''html'' then
           text_html e st keywords region timelimit max_results
         else if backend1 = ''lite'' then
           text_lite e st keywords region timelimit max_results
         else (st, Inl (UnboundLocalError ''results'')))"


subsection \<open>The chat\<close>

text \<open>The dictionary \<^verbatim>\<open>models\<close> of \<^verbatim>\<open>chat\<close> (lines 148-153).\<close>
definition models :: "(string \<times> string) list" where
  "models =
     [(''claude-3-haiku'', ''claude-3-haiku-20240307''),
      (''gpt-4o-mini'', ''gpt-4o-mini''),
      (''llama-3-70b'', ''meta-llama/Llama-3-70b-chat-hf''),
      (''mixtral-8x7b'', ''mistralai/Mixtral-8x7B-Instruct-v0.1'')]"

text \<open>The truth value Python gives a JSON value.\<close>
definition truthy :: "json \<Rightarrow> bool" where
  "truthy j = (case j of JNull \<Rightarrow> False | JBool b \<Rightarrow> b | JInt i \<Rightarrow> i \<noteq> 0 | JStr s \<Rightarrow> s \<noteq> [])"

text \<open>\<^verbatim>\<open>str(x)\<close> of a JSON value: the text of an exception raised with it.\<close>
definition str_json :: "json \<Rightarrow> string" where
  "str_json j =
     (case j of JNull \<Rightarrow> ''None'' | JBool b \<Rightarrow> (if b then ''True'' else ''False'')
      | JInt i \<Rightarrow> str_int i | JStr s \<Rightarrow> s)"

text \<open>
  The loop \<^verbatim>\<open>for x in data\<close> of \<^verbatim>\<open>chat\<close> (lines 177-189): the first fragment whose action is
  \<^verbatim>\<open>"error"\<close> raises; of the others, the truthy messages are collected.
\<close>
fun chat_fragments :: "fragment list \<Rightarrow> json list \<Rightarrow> error + json list" where
  "chat_fragments [] results = Inr results"
| "chat_fragments (x # data) results =
     (if x ''action'' = Some (JStr ''error'') then
        (let err_message = (case x ''type'' of None \<Rightarrow> JStr [] | Some v \<Rightarrow> v) in
         if x ''status'' = Some (JInt 429) then
           (if err_message = JStr ''ERR_CONVERSATION_LIMIT''
            then Inl (ConversationLimitException (str_json err_message))
            else Inl (RatelimitException (str_json err_message)))
         else Inl (DuckDuckGoSearchException (str_json err_message)))
      else
        (case x ''message'' of
           None \<Rightarrow> chat_fragments data results
         | Some message \<Rightarrow>
             if truthy message then chat_fragments data (results @ [message])
             else chat_fragments data results))"

text \<open>\<^verbatim>\<open>"".join(results)\<close>: an item that is not a string raises \<^verbatim>\<open>TypeError\<close>.\<close>
fun join_results :: "json list \<Rightarrow> error + string" where
  "join_results [] = Inr []"
| "join_results (JStr s # results) =
     (case join_results results of Inl err \<Rightarrow> Inl err | Inr r \<Rightarrow> Inr (s @ r))"
| "join_results (j # results) = Inl (TypeError ''sequence item: expected str instance'')"

text \<open>\<^verbatim>\<open>resp.headers.get("x-vqd-4", "")\<close>.\<close>
definition header_vqd :: "(string \<Rightarrow> string option) \<Rightarrow> string" where
  "header_vqd headers = (case headers ''x-vqd-4'' of None \<Rightarrow> [] | Some v \<Rightarrow> v)"

text \<open>
  \<^verbatim>\<open>chat\<close> (lines 136-194). The exceptions of \<^verbatim>\<open>self.client.get\<close> and \<^verbatim>\<open>self.client.post\<close>
  are not caught: they leave \<^verbatim>\<open>chat\<close> as they are (\<open>ClientError\<close>).
\<close>
definition chat :: "env \<Rightarrow> ddgs \<Rightarrow> string \<Rightarrow> string \<Rightarrow> int \<Rightarrow> ddgs \<times> (error + string)" where
  "chat e st keywords model timeout =
     (case (if chat_vqd st = [] then
              (case chat_status e of
                 Inl ex \<Rightarrow> Inl ex
               | Inr headers \<Rightarrow> Inr (st\<lparr>chat_vqd := header_vqd headers\<rparr>))
            else Inr st) of
        Inl ex \<Rightarrow> (st, Inl (ClientError (ex_type ex) (ex_str ex)))
      | Inr st1 \<Rightarrow>
          (let st2 = st1
                 \<lparr>chat_messages :=
                    chat_messages st1 @ [\<lparr>role = ''user'', msg_content = keywords\<rparr>],
                  chat_tokens_count :=
                    chat_tokens_count st1 +
                    (if length keywords \<ge> 4 then int (length keywords) div 4 else 1)\<rparr>
           in case map_of models model of
                None \<Rightarrow> (st2, Inl (KeyError model))
              | Some m \<Rightarrow>
                  (case chat_post e (chat_vqd st2) m (chat_messages st2) timeout of
                     Inl ex \<Rightarrow> (st2, Inl (ClientError (ex_type ex) (ex_str ex)))
                   | Inr resp \<Rightarrow>
                       (let st3 = st2\<lparr>chat_vqd := header_vqd (chat_headers resp)\<rparr> in
                        case json_fragments e (chat_text resp) of
                          Inl err \<Rightarrow> (st3, Inl err)
                        | Inr data \<Rightarrow>
                            (case chat_fragments data [] of
                               Inl err \<Rightarrow> (st3, Inl err)
                             | Inr results \<Rightarrow>
                                 (case join_results results of
                                    Inl err \<Rightarrow> (st3, Inl err)
                                  | Inr result \<Rightarrow>
                                      (st3\<lparr>chat_messages :=
                                              chat_messages st3 @
                                              [\<lparr>role = ''assistant'', msg_content = result\<rparr>],
                                            chat_tokens_count :=
                                              chat_tokens_count st3 + int (length results)\<rparr>,
                                       Inr result)))))))"

subsection \<open>The maps search: one round over the work set\<close>

text \<open>
  A bounding box \<^verbatim>\<open>(lat_t, lon_l, lat_b, lon_r)\<close>. A \<^verbatim>\<open>Decimal\<close> is a rational number here:
  the sums and the halves are exact, which \<^verbatim>\<open>Decimal\<close> arithmetic is as long as a result
  has no more digits than the precision of its context (28).
\<close>
type_synonym bbox = "rat \<times> rat \<times> rat \<times> rat"

text \<open>
  The loop \<^verbatim>\<open>for bbox in work_bboxes\<close> of \<^verbatim>\<open>maps\<close> (lines 1013-1024). \<open>vars\<close> holds the
  variables \<^verbatim>\<open>lat_t, lon_l, lat_b, lon_r\<close> of \<^verbatim>\<open>maps\<close>: the start box before the first
  round, and what line 1017 assigned last afterwards. Line 1016 reads them before line 1017
  assigns the box of this iteration. \<open>calculate_distance\<close> is \<^verbatim>\<open>_calculate_distance\<close> of
  \<^verbatim>\<open>utils.py\<close>, a parameter (its float result is a rational number).
\<close>
fun maps_round :: "(rat \<Rightarrow> rat \<Rightarrow> rat \<Rightarrow> rat \<Rightarrow> rat) \<Rightarrow> bbox list \<Rightarrow> bbox \<Rightarrow> bbox list \<Rightarrow> bbox list
    \<Rightarrow> bbox \<times> bbox list \<times> bbox list" where
  "maps_round calculate_distance [] vars tasks queue_bboxes = (vars, tasks, queue_bboxes)"
| "maps_round calculate_distance (bbox # work_bboxes) vars tasks queue_bboxes =
     (case vars of (lat_t0, lon_l0, lat_b0, lon_r0) \<Rightarrow>
        if calculate_distance lat_t0 lon_l0 lat_b0 lon_r0 > 1 then
          (case bbox of (lat_t, lon_l, lat_b, lon_r) \<Rightarrow>
             (let lat_middle = (lat_t + lat_b) / 2;
                  lon_middle = (lon_l + lon_r) / 2;
                  bbox1 = (lat_t, lon_l, lat_middle, lon_middle);
                  bbox2 = (lat_t, lon_middle, lat_middle, lon_r);
                  bbox3 = (lat_middle, lon_l, lat_b, lon_middle);
                  bbox4 = (lat_middle, lon_middle, lat_b, lon_r)
              in maps_round calculate_distance work_bboxes bbox (tasks @ [bbox])
                   (queue_bboxes @ [bbox1, bbox2, bbox3, bbox4])))
        else maps_round calculate_distance work_bboxes vars (tasks @ [bbox]) queue_bboxes)"

text \<open>
  A distance to run the loop with, in place of the absent \<^verbatim>\<open>_calculate_distance\<close>: the sum of
  the two sides of the box. Like the distance between the two corners, it is halved when both
  sides are.
\<close>
definition sides_distance :: "rat \<Rightarrow> rat \<Rightarrow> rat \<Rightarrow> rat \<Rightarrow> rat" where
  "sides_distance lat1 lon1 lat2 lon2 = \<bar>lat2 - lat1\<bar> + \<bar>lon2 - lon1\<bar>"

subsection \<open>Collaborators to run the model with\<close>

text \<open>
  An environment whose client answers every request with \<open>outcome\<close>, whose extractors return
  \<open>rows\<close>, \<open>elements\<close> and \<open>trs\<close> whatever the page, whose token is \<^verbatim>\<open>"vqd"\<close>, whose
  normalisations change nothing, and whose chat endpoint answers with the header \<open>hv\<close> and the
  fragments \<open>frags\<close>.
\<close>
definition stub_env :: "(client_exception + response) \<Rightarrow> api_row list \<Rightarrow> html_element list
    \<Rightarrow> lite_row list \<Rightarrow> string option \<Rightarrow> fragment list \<Rightarrow> env" where
  "stub_env outcome rows elements trs hv frags =
     \<lparr>client_request = (\<lambda>made rq. outcome),
      extract_vqd = (\<lambda>resp_content keywords. Inr ''vqd''),
      text_extract_json = (\<lambda>resp_content keywords. Inr rows),
      normalize = (\<lambda>s. s),
      normalize_url = (\<lambda>s. s),
      html_xpath = (\<lambda>resp_content. Inr elements),
      lite_xpath = (\<lambda>resp_content. Inr trs),
      lxml_available = True,
      chat_status = Inr (\<lambda>k. if k = ''x-vqd-4'' then Some ''v0'' else None),
      chat_post = (\<lambda>vqd m msgs timeout.
         Inr \<lparr>chat_headers = (\<lambda>k. if k = ''x-vqd-4'' then hv else None), chat_text = []\<rparr>),
      json_fragments = (\<lambda>t. Inr frags)\<rparr>"

text \<open>A response with a status and a body, and an exception with a text.\<close>
definition status_response :: "int \<Rightarrow> string \<Rightarrow> client_exception + response" where
  "status_response code c = Inr \<lparr>resp_url = ''https://duckduckgo.com'', status_code = code, content = c\<rparr>"

definition raised :: "string \<Rightarrow> client_exception + response" where
  "raised s = Inl \<lparr>ex_type = ''RequestError'', ex_str = s\<rparr>"

text \<open>A row of the JSON backend with the keys \<^verbatim>\<open>u\<close>, \<^verbatim>\<open>t\<close> and \<^verbatim>\<open>a\<close>.\<close>
definition row_of :: "string \<Rightarrow> string \<Rightarrow> string \<Rightarrow> api_row" where
  "row_of u t a = [''u'' \<mapsto> u, ''t'' \<mapsto> t, ''a'' \<mapsto> a]"


text \<open>A request to try the transport with.\<close>
definition probe :: request where
  "probe = \<lparr>req_method = ''GET'', req_url = ''https://duckduckgo.com/ac/'',
            req_params = [(''q'', ''cats'')], req_content = None, req_data = []\<rparr>"


text \<open>
  The offsets the specification names for a backend: \<open>first\<close>, \<open>first + stride\<close>,
  \<open>first + 2 * stride\<close>, ..., as far as they are below \<open>bound\<close>.
\<close>
definition offsets_below :: "int \<Rightarrow> int \<Rightarrow> int \<Rightarrow> int set" where
  "offsets_below first stride bound = {x. \<exists>k::nat. x = first + int k * stride \<and> x < bound}"


text \<open>Fragments of a chat response: a piece of the reply, and an error.\<close>
definition message_fragment :: "string \<Rightarrow> fragment" where
  "message_fragment s = [''message'' \<mapsto> JStr s]"

definition error_fragment :: "int \<Rightarrow> string \<Rightarrow> fragment" where
  "error_fragment status code =
     [''action'' \<mapsto> JStr ''error'', ''status'' \<mapsto> JInt status, ''type'' \<mapsto> JStr code]"


text \<open>
  The table of the lite backend read the way the specification describes it, one run of four
  rows after the other: the first row of a run gives the link and the title, the second the
  snippet, the other two are skipped; a run whose first row has no link, a link seen before or
  an ad or Google link gives nothing. A run of one row puts its link into the cache only (no
  snippet row follows), and an empty link gives no result.
\<close>
function lite_blocks :: "env \<Rightarrow> lite_row list \<Rightarrow> string set \<Rightarrow> text_result list
    \<Rightarrow> string set \<times> text_result list" where
  "lite_blocks e [] cache results = (cache, results)"
| "lite_blocks e (r1 # rows) cache results =
     (case first_or_None (row_href r1) of
        None \<Rightarrow> lite_blocks e (drop 3 rows) cache results
      | Some h \<Rightarrow>
          if h \<in> cache \<or> startswith h filtered_prefixes then
            lite_blocks e (drop 3 rows) cache results
          else
            (case rows of
               [] \<Rightarrow> (insert h cache, results)
             | r2 # rows' \<Rightarrow>
                 lite_blocks e (drop 3 rows) (insert h cache)
                   (if h \<noteq> [] then
                      results @
                        [\<lparr>title = normalize e (first_or_empty (row_a_text r1)),
                          href = normalize_url e h,
                          body = normalize e (strip (concat (row_snippet r2)))\<rparr>]
                    else results)))"
  by pat_completeness auto
termination
  by (relation "measure (\<lambda>(e, rows, cache, results). length rows)") auto

text \<open>
  The rows from position \<open>k + 1\<close> on: what is left of \<^verbatim>\<open>zip(cycle(range(1, 5)), elements)\<close>
  after \<open>k\<close> items.
\<close>
definition zip_from :: "nat \<Rightarrow> 'a list \<Rightarrow> (nat \<times> 'a) list" where
  "zip_from k elements = zip (map (\<lambda>j. (k + j) mod 4 + 1) [0..<length elements]) elements"

text \<open>Rows of a lite table: a link with its title, a snippet, a row with neither.\<close>
definition lite_link :: "string \<Rightarrow> string \<Rightarrow> lite_row" where
  "lite_link h t = \<lparr>row_href = [h], row_a_text = [t], row_snippet = []\<rparr>"

definition lite_snippet :: "string \<Rightarrow> lite_row" where
  "lite_snippet s = \<lparr>row_href = [], row_a_text = [], row_snippet = [s]\<rparr>"

definition lite_blank :: lite_row where
  "lite_blank = \<lparr>row_href = [], row_a_text = [], row_snippet = []\<rparr>"


subsection \<open>What the JSON backend keeps, said without the loop\<close>

text \<open>
  The rows whose \<^verbatim>\<open>u\<close> can be a result (present, not empty, not the Google search of the
  query), each with its key.
\<close>
definition api_keyed :: "string \<Rightarrow> api_row list \<Rightarrow> (string \<times> api_row) list" where
  "api_keyed keywords rows =
     concat (map (\<lambda>row. case row ''u'' of
                           None \<Rightarrow> []
                         | Some h \<Rightarrow>
                             if h \<noteq> [] \<and> h \<noteq> google_search_url keywords
                             then [(h, row)] else [])
                 rows)"

text \<open>
  The first occurrence of every such key that is not in the cache, in the order of the rows:
  \<open>AList.clearjunk\<close> keeps an entry and deletes every later entry with its key.
\<close>
definition api_first_seen :: "string \<Rightarrow> string set \<Rightarrow> api_row list \<Rightarrow> (string \<times> api_row) list" where
  "api_first_seen keywords cache rows =
     AList.clearjunk (AList.restrict (- cache) (api_keyed keywords rows))"





section \<open>Theorems\<close>

lemma get_url_tripped:
  "exception_event st \<Longrightarrow>
   get_url e st rq = (st, Inl (DuckDuckGoSearchException ''Exception occurred in previous call.''))"
  by (simp add: get_url_def)

lemma get_url_failure_sets_event:
  "get_url e st rq = (st', Inl err) \<Longrightarrow> exception_event st'"
  by (auto simp: get_url_def Let_def split: if_splits sum.splits)

lemma get_urls_tripped:
  "exception_event st \<Longrightarrow>
   get_urls e st rqs =
     (st, replicate (length rqs)
            (Inl (DuckDuckGoSearchException ''Exception occurred in previous call.'')))"
  by (induction rqs) (simp_all add: get_url_tripped)

subsection \<open>The fail-fast latch\<close>

text \<open>
  The event is never cleared: a page, a search and the chat leave a set event set.
\<close>

lemma executor_map_event:
  assumes page: "\<And>s st c st' c' r. exception_event st \<Longrightarrow> page s (st, c) = ((st', c'), r) \<Longrightarrow> exception_event st'"
  shows "exception_event st \<Longrightarrow> executor_map page slist (st, c) results = ((st', c'), r) \<Longrightarrow> exception_event st'"
proof (induction slist arbitrary: st c results)
  case Nil
  then show ?case by simp
next
  case (Cons s slist)
  obtain st1 c1 r1 where p: "page s (st, c) = ((st1, c1), r1)"
    by (metis prod.exhaust)
  have e1: "exception_event st1" using page[OF Cons.prems(1) p] .
  show ?case
  proof (cases r1)
    case (Inl err)
    with Cons.prems(2) p e1 show ?thesis by simp
  next
    case (Inr x)
    with Cons.prems(2) p have "executor_map page slist (st1, c1) (results @ x) = ((st', c'), r)" by simp
    from Cons.IH[OF e1 this] show ?thesis .
  qed
qed

lemma get_vqd_event: "exception_event st \<Longrightarrow> get_vqd e st k = (st, Inl (DuckDuckGoSearchException ''Exception occurred in previous call.''))"
  by (simp add: get_vqd_def get_url_tripped)

lemma text_api_page_event: "exception_event st \<Longrightarrow> text_api_page e k p s (st, c) = ((st, c), Inl (DuckDuckGoSearchException ''Exception occurred in previous call.''))"
  by (simp add: text_api_page_def get_url_tripped)

lemma text_html_page_event: "exception_event st \<Longrightarrow> text_html_page e p s (st, c) = ((st, c), Inl (DuckDuckGoSearchException ''Exception occurred in previous call.''))"
  by (simp add: text_html_page_def get_url_tripped)

lemma text_lite_page_event: "exception_event st \<Longrightarrow> text_lite_page e p s (st, c) = ((st, c), Inl (DuckDuckGoSearchException ''Exception occurred in previous call.''))"
  by (simp add: text_lite_page_def get_url_tripped)

lemma text_slist_hd: "\<exists>sl m. text_slist mr = (0 # sl, m)"
  by (auto simp: text_slist_def slist_of_def Let_def split: option.splits)

lemma text_api_event: "exception_event st \<Longrightarrow> exception_event (fst (text_api e st k rg ss tlm mr))"
  using text_slist_hd[of mr]
  by (auto simp: text_api_def get_vqd_event)

lemma text_html_event: "exception_event st \<Longrightarrow> exception_event (fst (text_html e st k rg tlm mr))"
  using text_slist_hd[of mr]
  by (auto simp: text_html_def get_vqd_event text_html_page_event split: option.splits)

lemma text_lite_event: "exception_event st \<Longrightarrow> exception_event (fst (text_lite e st k rg tlm mr))"
  using text_slist_hd[of mr]
  by (auto simp: text_lite_def text_lite_page_event split: option.splits)

lemma ddgs_text_event: "exception_event st \<Longrightarrow> exception_event (fst (ddgs_text e st k rg ss tlm b mr))"
  by (simp add: ddgs_text_def Let_def text_api_event text_html_event text_lite_event)

lemma chat_event: "exception_event (fst (chat e st k m t)) = exception_event st"
  by (auto simp: chat_def Let_def split: sum.splits option.splits if_splits)

text \<open>
  Claim C4. Once a call of \<^verbatim>\<open>_get_url\<close> on an instance has failed (whatever the exception or
  the status that made it fail), the event of the instance is set, and every later call of
  \<^verbatim>\<open>_get_url\<close> on it, whatever the requests, raises the exception that reports the previous
  call and leaves the instance as it was: in particular \<open>requests_made\<close> does not grow, so the
  client is not called. No method clears the event: it is still set after a text search and
  after a chat call.
\<close>
theorem fail_fast_latch:
  assumes "get_url e st rq = (st1, Inl err)"
  shows "exception_event st1 \<and>
         get_urls e st1 rqs =
           (st1, replicate (length rqs)
                   (Inl (DuckDuckGoSearchException ''Exception occurred in previous call.''))) \<and>
         exception_event (fst (ddgs_text e st1 keywords region safesearch timelimit backend max_results)) \<and>
         exception_event (fst (chat e st1 keywords model timeout))"
proof -
  have ev: "exception_event st1"
    using assms by (rule get_url_failure_sets_event)
  show ?thesis
    using ev by (simp add: get_urls_tripped ddgs_text_event chat_event)
qed

theorem fail_fast_latch_witness:
  "get_url (stub_env (status_response 500 []) [] [] [] None []) init probe =
     (init\<lparr>exception_event := True, requests_made := [probe]\<rparr>,
      Inl (DuckDuckGoSearchException ''https://duckduckgo.com return None.'')) \<and>
   get_urls (stub_env (status_response 500 []) [] [] [] None [])
      (init\<lparr>exception_event := True, requests_made := [probe]\<rparr>) [probe, probe] =
     (init\<lparr>exception_event := True, requests_made := [probe]\<rparr>,
      [Inl (DuckDuckGoSearchException ''Exception occurred in previous call.''),
       Inl (DuckDuckGoSearchException ''Exception occurred in previous call.'')])"
proof -
  have h: "get_url (stub_env (status_response 500 []) [] [] [] None []) init probe =
     (init\<lparr>exception_event := True, requests_made := [probe]\<rparr>,
      Inl (DuckDuckGoSearchException ''https://duckduckgo.com return None.''))"
    by (simp add: get_url_def stub_env_def status_response_def init_def Let_def)
  show ?thesis
    using h fail_fast_latch[OF h, of "[probe, probe]"] by (simp add: numeral_2_eq_2)
qed


subsection \<open>The classification of failures by \<^verbatim>\<open>_get_url\<close>\<close>

lemma str_in_time: "str_in ''time'' s \<longleftrightarrow> (\<exists>p q. s = p @ ''time'' @ q)"
  by (simp add: str_in_def sublist_def)

lemma stub_client [simp]:
  "client_request (stub_env outcome rows elements trs hv frags) made rq = outcome"
  by (simp add: stub_env_def)

lemma lower_timed: "lower ''Request Timed out'' = ''request '' @ ''time'' @ ''d out''"
  by code_simp

lemma lower_refused: "\<not> (\<exists>p q. lower ''connection refused'' = p @ ''time'' @ q)"
proof -
  have "\<not> str_in ''time'' (lower ''connection refused'')"
    by code_simp
  then show ?thesis by (simp add: str_in_time)
qed

text \<open>
  Claim C5. On an instance whose event is not set, \<^verbatim>\<open>_get_url\<close> returns the body of the response
  exactly when the client returns a response with status 200 (and then the event stays clear).
  For status 202, 301 or 403 it raises \<^verbatim>\<open>RatelimitException\<close>, for every other status but 200
  \<^verbatim>\<open>DuckDuckGoSearchException\<close>. When the client raises, it raises \<^verbatim>\<open>TimeoutException\<close> exactly
  when the lowercased text of the exception contains \<^verbatim>\<open>time\<close>, and
  \<^verbatim>\<open>DuckDuckGoSearchException\<close> otherwise. In every failure case the event is set afterwards.
\<close>
theorem get_url_classification:
  assumes "\<not> exception_event st"
  shows "(\<forall>resp. client_request e (requests_made st) rq = Inr resp \<longrightarrow>
            (status_code resp = 200 \<longrightarrow>
               get_url e st rq = (st\<lparr>requests_made := requests_made st @ [rq]\<rparr>, Inr (content resp))) \<and>
            (status_code resp \<in> {202, 301, 403} \<longrightarrow>
               exception_event (fst (get_url e st rq)) \<and>
               (\<exists>m. snd (get_url e st rq) = Inl (RatelimitException m))) \<and>
            (status_code resp \<notin> {200, 202, 301, 403} \<longrightarrow>
               exception_event (fst (get_url e st rq)) \<and>
               (\<exists>m. snd (get_url e st rq) = Inl (DuckDuckGoSearchException m)))) \<and>
         (\<forall>ex. client_request e (requests_made st) rq = Inl ex \<longrightarrow>
            exception_event (fst (get_url e st rq)) \<and>
            ((\<exists>p q. lower (ex_str ex) = p @ ''time'' @ q) \<longrightarrow>
               (\<exists>m. snd (get_url e st rq) = Inl (TimeoutException m))) \<and>
            (\<not> (\<exists>p q. lower (ex_str ex) = p @ ''time'' @ q) \<longrightarrow>
               (\<exists>m. snd (get_url e st rq) = Inl (DuckDuckGoSearchException m)))) \<and>
         ((\<exists>b. snd (get_url e st rq) = Inr b) \<longleftrightarrow>
            (\<exists>resp. client_request e (requests_made st) rq = Inr resp \<and> status_code resp = 200))"
  using assms
  by (auto simp: get_url_def Let_def str_in_time split: sum.splits)

theorem get_url_classification_witness:
  "get_url (stub_env (status_response 200 ''body'') [] [] [] None []) init probe =
     (init\<lparr>requests_made := [probe]\<rparr>, Inr ''body'') \<and>
   (\<exists>m. snd (get_url (stub_env (status_response 403 []) [] [] [] None []) init probe) =
          Inl (RatelimitException m)) \<and>
   (\<exists>m. snd (get_url (stub_env (status_response 500 []) [] [] [] None []) init probe) =
          Inl (DuckDuckGoSearchException m)) \<and>
   (\<exists>m. snd (get_url (stub_env (raised ''Request Timed out'') [] [] [] None []) init probe) =
          Inl (TimeoutException m)) \<and>
   (\<exists>m. snd (get_url (stub_env (raised ''connection refused'') [] [] [] None []) init probe) =
          Inl (DuckDuckGoSearchException m)) \<and>
   exception_event (fst (get_url (stub_env (raised ''connection refused'') [] [] [] None []) init probe))"
proof -
  have i: "\<not> exception_event init" by (simp add: init_def)
  have r: "requests_made init = []" by (simp add: init_def)
  have t: "\<exists>p q. lower ''Request Timed out'' = p @ ''time'' @ q"
    using lower_timed by blast
  have c1: "get_url (stub_env (status_response 200 ''body'') [] [] [] None []) init probe =
     (init\<lparr>requests_made := [probe]\<rparr>, Inr ''body'')"
    using get_url_classification[OF i, of "stub_env (status_response 200 ''body'') [] [] [] None []" probe]
    by (simp add: status_response_def r)
  have c2: "\<exists>m. snd (get_url (stub_env (status_response 403 []) [] [] [] None []) init probe) =
          Inl (RatelimitException m)"
    using get_url_classification[OF i, of "stub_env (status_response 403 []) [] [] [] None []" probe]
    by (simp add: status_response_def)
  have c3: "\<exists>m. snd (get_url (stub_env (status_response 500 []) [] [] [] None []) init probe) =
          Inl (DuckDuckGoSearchException m)"
    using get_url_classification[OF i, of "stub_env (status_response 500 []) [] [] [] None []" probe]
    by (simp add: status_response_def)
  have c4: "\<exists>m. snd (get_url (stub_env (raised ''Request Timed out'') [] [] [] None []) init probe) =
          Inl (TimeoutException m)"
    using get_url_classification[OF i, of "stub_env (raised ''Request Timed out'') [] [] [] None []" probe] t
    by (simp add: raised_def)
  have c5: "(\<exists>m. snd (get_url (stub_env (raised ''connection refused'') [] [] [] None []) init probe) =
          Inl (DuckDuckGoSearchException m)) \<and>
     exception_event (fst (get_url (stub_env (raised ''connection refused'') [] [] [] None []) init probe))"
    using get_url_classification[OF i, of "stub_env (raised ''connection refused'') [] [] [] None []" probe]
          lower_refused
    by (simp add: raised_def)
  show ?thesis
    using c1 c2 c3 c4 c5 by blast
qed

subsection \<open>The dispatch of \<^verbatim>\<open>text\<close>\<close>

text \<open>
  Claim C10. With the HTML parser available and a backend that is none of \<^verbatim>\<open>api\<close>, \<^verbatim>\<open>html\<close>
  and \<^verbatim>\<open>lite\<close>, \<^verbatim>\<open>text\<close> makes no request and fails with \<^verbatim>\<open>UnboundLocalError\<close> on its result
  variable, whatever the other arguments: it never returns a list.
\<close>
theorem text_unknown_backend:
  assumes "lxml_available e" and "backend \<notin> {''api'', ''html'', ''lite''}"
  shows "ddgs_text e st keywords region safesearch timelimit backend max_results =
           (st, Inl (UnboundLocalError ''results''))"
  using assms by (simp add: ddgs_text_def)

theorem text_unknown_backend_witness:
  "ddgs_text (stub_env (status_response 200 []) [] [] [] None []) init ''cats'' ''wt-wt''
      ''moderate'' None ''json'' (Some 10) = (init, Inl (UnboundLocalError ''results''))"
  using text_unknown_backend[of "stub_env (status_response 200 []) [] [] [] None []" "''json''"
          init "''cats''" "''wt-wt''" "''moderate''" None "Some 10"]
  by (simp add: stub_env_def)

subsection \<open>The round of the maps search\<close>

text \<open>
  Claim C7, at a work set where the code departs from it. The start box \<open>(1, 0, 0, 1)\<close> has
  sides of one degree; the first round splits it into its four quadrants, each the parent
  halved at the two midpoints. In the second round the first quadrant is split although its
  own distance is not above 1, because the test of line 1016 still reads the coordinates of the
  start box; after that the test reads the coordinates of that quadrant, and no other quadrant
  is split.
\<close>
theorem maps_round_stale_test:
  "maps_round sides_distance [(1, 0, 0, 1)] (1, 0, 0, 1) [] [] =
     ((1, 0, 0, 1), [(1, 0, 0, 1)],
      [(1, 0, 1 / 2, 1 / 2), (1, 1 / 2, 1 / 2, 1), (1 / 2, 0, 0, 1 / 2), (1 / 2, 1 / 2, 0, 1)]) \<and>
   \<not> sides_distance 1 0 (1 / 2) (1 / 2) > 1 \<and>
   maps_round sides_distance
      [(1, 0, 1 / 2, 1 / 2), (1, 1 / 2, 1 / 2, 1), (1 / 2, 0, 0, 1 / 2), (1 / 2, 1 / 2, 0, 1)]
      (1, 0, 0, 1) [] [] =
     ((1, 0, 1 / 2, 1 / 2),
      [(1, 0, 1 / 2, 1 / 2), (1, 1 / 2, 1 / 2, 1), (1 / 2, 0, 0, 1 / 2), (1 / 2, 1 / 2, 0, 1)],
      [(1, 0, 3 / 4, 1 / 4), (1, 1 / 4, 3 / 4, 1 / 2), (3 / 4, 0, 1 / 2, 1 / 4),
       (3 / 4, 1 / 4, 1 / 2, 1 / 2)])"
  by (simp add: sides_distance_def Let_def)


subsection \<open>The page offsets\<close>

lemma py_range_Nil: "\<not> (0 < step \<and> start < stop) \<Longrightarrow> py_range start stop step = []"
  by (subst py_range.simps) simp

lemma py_range_Cons:
  "0 < step \<Longrightarrow> start < stop \<Longrightarrow>
   py_range start stop step = start # py_range (start + step) stop step"
  by (subst py_range.simps) simp

lemma py_range_set:
  "0 < step \<Longrightarrow> set (py_range start stop step) = offsets_below start step stop"
proof (induction start stop step rule: py_range.induct)
  case (1 start stop step)
  show ?case
  proof (cases "start < stop")
    case True
    have ih: "set (py_range (start + step) stop step) = offsets_below (start + step) step stop"
      using 1 True by simp
    have "offsets_below start step stop = insert start (offsets_below (start + step) step stop)"
    proof (rule set_eqI)
      fix x
      show "x \<in> offsets_below start step stop \<longleftrightarrow>
            x \<in> insert start (offsets_below (start + step) step stop)"
      proof
        assume "x \<in> offsets_below start step stop"
        then obtain k :: nat where k: "x = start + int k * step" "x < stop"
          by (auto simp: offsets_below_def)
        show "x \<in> insert start (offsets_below (start + step) step stop)"
        proof (cases k)
          case 0
          with k show ?thesis by simp
        next
          case (Suc j)
          with k have "x = (start + step) + int j * step" by (simp add: algebra_simps)
          with k(2) show ?thesis by (auto simp: offsets_below_def)
        qed
      next
        assume "x \<in> insert start (offsets_below (start + step) step stop)"
        then consider "x = start" | "x \<in> offsets_below (start + step) step stop" by blast
        then show "x \<in> offsets_below start step stop"
        proof cases
          case 1
          then have "x = start + int 0 * step" by simp
          with True 1 show ?thesis unfolding offsets_below_def by blast
        next
          case 2
          then obtain j :: nat where j: "x = (start + step) + int j * step" "x < stop"
            by (auto simp: offsets_below_def)
          then have "x = start + int (Suc j) * step" by (simp add: algebra_simps)
          with j(2) show ?thesis unfolding offsets_below_def by blast
        qed
      qed
    qed
    with ih True 1(2) show ?thesis by (simp add: py_range_Cons)
  next
    case False
    have "x \<notin> offsets_below start step stop" for x
    proof
      assume "x \<in> offsets_below start step stop"
      then obtain k :: nat where k: "x = start + int k * step" "x < stop"
        by (auto simp: offsets_below_def)
      have "0 \<le> int k * step" using 1(2) by simp
      with k False show False by linarith
    qed
    then have "offsets_below start step stop = {}" by blast
    with False show ?thesis by (simp add: py_range_Nil)
  qed
qed

lemma offsets_below_ge: "0 < stride \<Longrightarrow> x \<in> offsets_below first stride bound \<Longrightarrow> first \<le> x"
  by (auto simp: offsets_below_def)

lemma py_range_sorted: "sorted_wrt (<) (py_range start stop step)"
proof (induction start stop step rule: py_range.induct)
  case (1 start stop step)
  show ?case
  proof (cases "0 < step \<and> start < stop")
    case True
    have "\<forall>x \<in> set (py_range (start + step) stop step). start < x"
      using True offsets_below_ge[of step _ "start + step" stop] py_range_set[of step "start + step" stop]
      by fastforce
    with 1 True show ?thesis by (simp add: py_range_Cons)
  next
    case False
    then show ?thesis by (simp add: py_range_Nil)
  qed
qed

lemma slist_of_Some:
  assumes "0 < first" "0 < stride" "0 \<le> limit"
  shows "fst (slist_of limit first stride (Some n)) = 0 # py_range first (min n limit) stride"
    and "snd (slist_of limit first stride (Some n)) = Some (min n limit)"
  using assms by (auto simp: slist_of_def Let_def py_range_Nil)

lemma slist_of_props:
  assumes "0 < first" "0 < stride" "0 \<le> limit"
  shows "hd (fst (slist_of limit first stride (Some n))) = 0 \<and>
         sorted_wrt (<) (fst (slist_of limit first stride (Some n))) \<and>
         set (fst (slist_of limit first stride (Some n))) =
           insert 0 (offsets_below first stride (min n limit)) \<and>
         snd (slist_of limit first stride (Some n)) = Some (min n limit)"
proof -
  have "\<forall>x \<in> set (py_range first (min n limit) stride). 0 < x"
    using assms offsets_below_ge[of stride _ first "min n limit"] py_range_set[of stride first "min n limit"]
    by fastforce
  then show ?thesis
    using assms by (simp add: slist_of_Some py_range_sorted py_range_set)
qed

text \<open>
  Claim C3. Without a maximum the offset list of each of the four paginated searches is
  \<open>[0]\<close>. With a maximum \<open>n\<close> the list starts with 0, is strictly increasing, and holds, besides
  0, exactly the offsets from the first one of the search (23 for text, 100 for images, 60 for
  videos, 30 for news) in steps of its stride (50, 100, 60, 30) that are below \<open>n\<close> clamped to
  the ceiling of the search (2023, 500, 400, 120); the clamped value is what \<^verbatim>\<open>max_results\<close>
  holds afterwards.
\<close>
theorem slist_offsets:
  "fst (text_slist None) = [0] \<and> fst (images_slist None) = [0] \<and>
   fst (videos_slist None) = [0] \<and> fst (news_slist None) = [0] \<and>
   hd (fst (text_slist (Some n))) = 0 \<and>
   sorted_wrt (<) (fst (text_slist (Some n))) \<and>
   set (fst (text_slist (Some n))) = insert 0 (offsets_below 23 50 (min n 2023)) \<and>
   snd (text_slist (Some n)) = Some (min n 2023) \<and>
   hd (fst (images_slist (Some n))) = 0 \<and>
   sorted_wrt (<) (fst (images_slist (Some n))) \<and>
   set (fst (images_slist (Some n))) = insert 0 (offsets_below 100 100 (min n 500)) \<and>
   snd (images_slist (Some n)) = Some (min n 500) \<and>
   hd (fst (videos_slist (Some n))) = 0 \<and>
   sorted_wrt (<) (fst (videos_slist (Some n))) \<and>
   set (fst (videos_slist (Some n))) = insert 0 (offsets_below 60 60 (min n 400)) \<and>
   snd (videos_slist (Some n)) = Some (min n 400) \<and>
   hd (fst (news_slist (Some n))) = 0 \<and>
   sorted_wrt (<) (fst (news_slist (Some n))) \<and>
   set (fst (news_slist (Some n))) = insert 0 (offsets_below 30 30 (min n 120)) \<and>
   snd (news_slist (Some n)) = Some (min n 120)"
proof -
  have none: "fst (slist_of l f s None) = [0]" for l f s
    by (simp add: slist_of_def)
  have t: "0 < (23::int)" "0 < (50::int)" "0 \<le> (2023::int)" by simp_all
  have i: "0 < (100::int)" "0 \<le> (500::int)" by simp_all
  have v: "0 < (60::int)" "0 \<le> (400::int)" by simp_all
  have w: "0 < (30::int)" "0 \<le> (120::int)" by simp_all
  show ?thesis
    unfolding text_slist_def images_slist_def videos_slist_def news_slist_def
    using slist_of_props[OF t(1) t(2) t(3), of n] slist_of_props[OF i(1) i(1) i(2), of n]
      slist_of_props[OF v(1) v(1) v(2), of n] slist_of_props[OF w(1) w(1) w(2), of n]
    by (simp only: none simp_thms)
qed


subsection \<open>The chat\<close>

text \<open>
  The loop over the fragments stops at the first error fragment, with the exception lines
  180-187 choose for it; and a chat call whose handshake (if one is needed), model lookup,
  request and decoding succeed ends as that loop does, in the state the request left.
\<close>

lemma chat_fragments_first_error:
  assumes "\<forall>f \<in> set pre. f ''action'' \<noteq> Some (JStr ''error'')"
    and "x ''action'' = Some (JStr ''error'')"
  shows "chat_fragments (pre @ x # post) results =
           Inl (let err_message = (case x ''type'' of None \<Rightarrow> JStr [] | Some v \<Rightarrow> v) in
                if x ''status'' = Some (JInt 429) then
                  (if err_message = JStr ''ERR_CONVERSATION_LIMIT''
                   then ConversationLimitException (str_json err_message)
                   else RatelimitException (str_json err_message))
                else DuckDuckGoSearchException (str_json err_message))"
  using assms
proof (induction pre arbitrary: results)
  case Nil
  then show ?case by (simp add: Let_def)
next
  case (Cons f pre)
  then show ?case by (cases "f ''message''") simp_all
qed

lemma chat_result:
  assumes hs: "chat_vqd st \<noteq> [] \<or> chat_status e = Inr h"
    and m: "map_of models model = Some m"
    and post: "chat_post e (if chat_vqd st = [] then header_vqd h else chat_vqd st) m
                 (chat_messages st @ [\<lparr>role = ''user'', msg_content = keywords\<rparr>]) timeout = Inr resp"
    and dec: "json_fragments e (chat_text resp) = Inr data"
    and fr: "chat_fragments data [] = Inl err"
  shows "chat e st keywords model timeout =
           (st\<lparr>chat_messages := chat_messages st @ [\<lparr>role = ''user'', msg_content = keywords\<rparr>],
               chat_tokens_count := chat_tokens_count st +
                 (if length keywords \<ge> 4 then int (length keywords) div 4 else 1),
               chat_vqd := header_vqd (chat_headers resp)\<rparr>,
            Inl err)"
proof (cases "chat_vqd st = []")
  case True
  with hs have "chat_status e = Inr h" by simp
  with True m post dec fr show ?thesis
    by (simp add: chat_def Let_def)
next
  case False
  with m post dec fr show ?thesis
    by (simp add: chat_def Let_def)
qed

lemma stub_chat [simp]:
  "chat_status (stub_env outcome rows elements trs hv frags) =
     Inr (\<lambda>k. if k = ''x-vqd-4'' then Some ''v0'' else None)"
  "chat_post (stub_env outcome rows elements trs hv frags) vqd m msgs timeout =
     Inr \<lparr>chat_headers = (\<lambda>k. if k = ''x-vqd-4'' then hv else None), chat_text = []\<rparr>"
  "json_fragments (stub_env outcome rows elements trs hv frags) t = Inr frags"
  by (simp_all add: stub_env_def)

lemma message_fragment_simps [simp]:
  "message_fragment s ''action'' = None"
  "message_fragment s ''message'' = Some (JStr s)"
  by (simp_all add: message_fragment_def)

lemma error_fragment_simps [simp]:
  "error_fragment status code ''action'' = Some (JStr ''error'')"
  "error_fragment status code ''status'' = Some (JInt status)"
  "error_fragment status code ''type'' = Some (JStr code)"
  by (simp_all add: error_fragment_def)

text \<open>
  Claim C8. Let a chat call get as far as the decoded fragments, and let \<open>x\<close> be the first
  fragment whose action is \<^verbatim>\<open>"error"\<close>. Then the call raises
  \<^verbatim>\<open>ConversationLimitException\<close> when the status of \<open>x\<close> is 429 and its type is
  \<^verbatim>\<open>"ERR_CONVERSATION_LIMIT"\<close>, \<^verbatim>\<open>RatelimitException\<close> when the status is 429 and the type is
  anything else, and \<^verbatim>\<open>DuckDuckGoSearchException\<close> for every other status; the three
  exceptions are different, so each is raised exactly in its case.
\<close>
theorem chat_error_classification:
  assumes "chat_vqd st \<noteq> [] \<or> chat_status e = Inr h"
    and "map_of models model = Some m"
    and "chat_post e (if chat_vqd st = [] then header_vqd h else chat_vqd st) m
           (chat_messages st @ [\<lparr>role = ''user'', msg_content = keywords\<rparr>]) timeout = Inr resp"
    and "json_fragments e (chat_text resp) = Inr (pre @ x # rest)"
    and "\<forall>f \<in> set pre. f ''action'' \<noteq> Some (JStr ''error'')"
    and "x ''action'' = Some (JStr ''error'')"
  shows "snd (chat e st keywords model timeout) =
           Inl (if x ''status'' = Some (JInt 429) then
                  (if x ''type'' = Some (JStr ''ERR_CONVERSATION_LIMIT'')
                   then ConversationLimitException ''ERR_CONVERSATION_LIMIT''
                   else RatelimitException
                          (str_json (case x ''type'' of None \<Rightarrow> JStr [] | Some v \<Rightarrow> v)))
                else DuckDuckGoSearchException
                       (str_json (case x ''type'' of None \<Rightarrow> JStr [] | Some v \<Rightarrow> v)))"
proof -
  let ?err = "let err_message = (case x ''type'' of None \<Rightarrow> JStr [] | Some v \<Rightarrow> v) in
                if x ''status'' = Some (JInt 429) then
                  (if err_message = JStr ''ERR_CONVERSATION_LIMIT''
                   then ConversationLimitException (str_json err_message)
                   else RatelimitException (str_json err_message))
                else DuckDuckGoSearchException (str_json err_message)"
  have "chat_fragments (pre @ x # rest) [] = Inl ?err"
    using assms(5,6) by (rule chat_fragments_first_error)
  from chat_result[OF assms(1,2,3,4) this]
  have "snd (chat e st keywords model timeout) = Inl ?err" by simp
  then show ?thesis
    by (cases "x ''type''") (auto simp: Let_def str_json_def)
qed

theorem chat_error_classification_witness:
  "snd (chat (stub_env (status_response 200 []) [] [] [] (Some ''v1'')
               [message_fragment ''Hi'', error_fragment 429 ''ERR_CONVERSATION_LIMIT''])
          init ''hello'' ''gpt-4o-mini'' 30) =
     Inl (ConversationLimitException ''ERR_CONVERSATION_LIMIT'') \<and>
   snd (chat (stub_env (status_response 200 []) [] [] [] (Some ''v1'')
               [message_fragment ''Hi'', error_fragment 429 ''ERR_BUSY''])
          init ''hello'' ''gpt-4o-mini'' 30) =
     Inl (RatelimitException ''ERR_BUSY'') \<and>
   snd (chat (stub_env (status_response 200 []) [] [] [] (Some ''v1'')
               [message_fragment ''Hi'', error_fragment 500 ''ERR_CONVERSATION_LIMIT''])
          init ''hello'' ''gpt-4o-mini'' 30) =
     Inl (DuckDuckGoSearchException ''ERR_CONVERSATION_LIMIT'')"
proof -
  have m: "map_of models ''gpt-4o-mini'' = Some ''gpt-4o-mini''"
    by (simp add: models_def)
  have w: "snd (chat (stub_env (status_response 200 []) [] [] [] (Some ''v1'')
               [message_fragment ''Hi'', error_fragment status code])
          init ''hello'' ''gpt-4o-mini'' 30) =
     Inl (if error_fragment status code ''status'' = Some (JInt 429) then
            (if error_fragment status code ''type'' = Some (JStr ''ERR_CONVERSATION_LIMIT'')
             then ConversationLimitException ''ERR_CONVERSATION_LIMIT''
             else RatelimitException
                    (str_json (case error_fragment status code ''type'' of
                                 None \<Rightarrow> JStr [] | Some v \<Rightarrow> v)))
          else DuckDuckGoSearchException
                 (str_json (case error_fragment status code ''type'' of
                              None \<Rightarrow> JStr [] | Some v \<Rightarrow> v)))" for status code
    by (rule chat_error_classification[where h = "\<lambda>k. if k = ''x-vqd-4'' then Some ''v0'' else None"
          and m = "''gpt-4o-mini''"
          and resp = "\<lparr>chat_headers = (\<lambda>k. if k = ''x-vqd-4'' then Some ''v1'' else None),
                        chat_text = []\<rparr>"
          and pre = "[message_fragment ''Hi'']" and rest = "[]"
          and x = "error_fragment status code"])
       (simp_all add: m)
  show ?thesis
    using w[of 429 "''ERR_CONVERSATION_LIMIT''"] w[of 429 "''ERR_BUSY''"]
      w[of 500 "''ERR_CONVERSATION_LIMIT''"]
    by (simp add: str_json_def)
qed

text \<open>
  Claim C9. When a chat call fails in the loop over the fragments (which only an error
  fragment makes fail), the instance it leaves has the user turn of this call as the last
  message (no assistant turn, and the user turn is not taken back) and has the token of the
  header of the failing response.
\<close>
theorem chat_failure_keeps_user_turn:
  assumes "chat_vqd st \<noteq> [] \<or> chat_status e = Inr h"
    and "map_of models model = Some m"
    and "chat_post e (if chat_vqd st = [] then header_vqd h else chat_vqd st) m
           (chat_messages st @ [\<lparr>role = ''user'', msg_content = keywords\<rparr>]) timeout = Inr resp"
    and "json_fragments e (chat_text resp) = Inr data"
    and "chat_fragments data [] = Inl err"
  shows "\<exists>st'. chat e st keywords model timeout = (st', Inl err) \<and>
           chat_messages st' = chat_messages st @ [\<lparr>role = ''user'', msg_content = keywords\<rparr>] \<and>
           last (chat_messages st') = \<lparr>role = ''user'', msg_content = keywords\<rparr> \<and>
           chat_vqd st' = header_vqd (chat_headers resp)"
  using chat_result[OF assms] by simp

theorem chat_failure_keeps_user_turn_witness:
  "snd (chat (stub_env (status_response 200 []) [] [] [] (Some ''v1'')
          [message_fragment ''Hi'', error_fragment 429 ''ERR_CONVERSATION_LIMIT''])
     init ''hello'' ''gpt-4o-mini'' 30) =
     Inl (ConversationLimitException ''ERR_CONVERSATION_LIMIT'') \<and>
   chat_messages (fst (chat (stub_env (status_response 200 []) [] [] [] (Some ''v1'')
          [message_fragment ''Hi'', error_fragment 429 ''ERR_CONVERSATION_LIMIT''])
     init ''hello'' ''gpt-4o-mini'' 30)) = [\<lparr>role = ''user'', msg_content = ''hello''\<rparr>] \<and>
   chat_vqd (fst (chat (stub_env (status_response 200 []) [] [] [] (Some ''v1'')
          [message_fragment ''Hi'', error_fragment 429 ''ERR_CONVERSATION_LIMIT''])
     init ''hello'' ''gpt-4o-mini'' 30)) = ''v1'' \<and>
   chat_vqd init = [] \<and> chat_messages init = []"
proof -
  have m: "map_of models ''gpt-4o-mini'' = Some ''gpt-4o-mini''"
    by (simp add: models_def)
  have "\<exists>st'. chat (stub_env (status_response 200 []) [] [] [] (Some ''v1'')
          [message_fragment ''Hi'', error_fragment 429 ''ERR_CONVERSATION_LIMIT''])
     init ''hello'' ''gpt-4o-mini'' 30 = (st', Inl (ConversationLimitException ''ERR_CONVERSATION_LIMIT'')) \<and>
     chat_messages st' = chat_messages init @ [\<lparr>role = ''user'', msg_content = ''hello''\<rparr>] \<and>
     last (chat_messages st') = \<lparr>role = ''user'', msg_content = ''hello''\<rparr> \<and>
     chat_vqd st' = header_vqd (chat_headers \<lparr>chat_headers = (\<lambda>k. if k = ''x-vqd-4'' then Some ''v1'' else None),
                        chat_text = []\<rparr>)"
    by (rule chat_failure_keeps_user_turn[where h = "\<lambda>k. if k = ''x-vqd-4'' then Some ''v0'' else None"
          and m = "''gpt-4o-mini''"
          and resp = "\<lparr>chat_headers = (\<lambda>k. if k = ''x-vqd-4'' then Some ''v1'' else None),
                        chat_text = []\<rparr>"
          and data = "[message_fragment ''Hi'', error_fragment 429 ''ERR_CONVERSATION_LIMIT'']"])
       (simp_all add: m truthy_def str_json_def Let_def)
  then show ?thesis
    by (auto simp: header_vqd_def init_def)
qed


subsection \<open>The rows of the lite backend\<close>

lemma zip_cycle_from: "zip_cycle elements = zip_from 0 elements"
  by (simp add: zip_cycle_def zip_from_def)

lemma zip_from_Nil [simp]: "zip_from k [] = []"
  by (simp add: zip_from_def)

lemma zip_from_Cons: "zip_from k (x # xs) = (k mod 4 + 1, x) # zip_from (Suc k) xs"
proof -
  have "map (\<lambda>j. (k + j) mod 4 + 1) [0..<Suc (length xs)] =
        (k mod 4 + 1) # map (\<lambda>j. (Suc k + j) mod 4 + 1) [0..<length xs]"
    by (simp add: upt_conv_Cons map_Suc_upt[symmetric] del: upt_Suc)
  then show ?thesis by (simp add: zip_from_def)
qed

lemma zip_from_4: "zip_from (k + 4) xs = zip_from k xs"
  by (simp add: zip_from_def add.assoc[symmetric] add.commute)

lemma drop_zip_from: "drop n (zip_from k xs) = zip_from (k + n) (drop n xs)"
proof (induction n arbitrary: k xs)
  case 0
  then show ?case by simp
next
  case (Suc n)
  show ?case
  proof (cases xs)
    case Nil
    then show ?thesis by simp
  next
    case (Cons x xs')
    with Suc[of "Suc k" xs'] show ?thesis by (simp add: zip_from_Cons)
  qed
qed

lemma lite_rows_after_snippet:
  "text_lite_rows e (zip_from (Suc (Suc 0)) xs) v = text_lite_rows e (zip_from 0 (drop 2 xs)) v"
proof (cases xs)
  case Nil
  then show ?thesis by simp
next
  case (Cons a ys)
  show ?thesis
  proof (cases ys)
    case Nil
    with Cons show ?thesis by (simp add: zip_from_Cons)
  next
    case (Cons b zs)
    have "zip_from (Suc (Suc (Suc (Suc 0)))) zs = zip_from 0 zs"
      using zip_from_4[of 0 zs] by (simp add: eval_nat_numeral)
    with Cons \<open>xs = a # ys\<close> show ?thesis
      by (simp add: zip_from_Cons)
  qed
qed

lemma lite_rows_skip:
  assumes "first_or_None (row_href r1) = None \<or>
           (\<exists>h. first_or_None (row_href r1) = Some h \<and>
                (h \<in> lv_cache v \<or> startswith h filtered_prefixes))"
  shows "text_lite_rows e (zip_from 0 (r1 # rows)) v =
         text_lite_rows e (zip_from 0 (drop 3 rows))
           (v\<lparr>lv_href := Bound (first_or_None (row_href r1))\<rparr>)"
proof -
  have "drop 3 (zip_from (Suc 0) rows) = zip_from 0 (drop 3 rows)"
    using drop_zip_from[of 3 "Suc 0" rows] zip_from_4[of 0 "drop 3 rows"] by simp
  with assms show ?thesis
    by (auto simp: zip_from_Cons Let_def)
qed

lemma lite_rows_blocks:
  "lv_cache (fst (text_lite_rows e (zip_from 0 rows)
       \<lparr>lv_cache = cache, lv_href = hv, lv_title = tv, lv_page_results = results\<rparr>)) =
     fst (lite_blocks e rows cache results) \<and>
   snd (text_lite_rows e (zip_from 0 rows)
       \<lparr>lv_cache = cache, lv_href = hv, lv_title = tv, lv_page_results = results\<rparr>) =
     Inr (snd (lite_blocks e rows cache results))"
proof (induction e rows cache results arbitrary: hv tv rule: lite_blocks.induct)
  case (1 e cache results)
  then show ?case by simp
next
  case (2 e r1 rows cache results)
  let ?v = "\<lparr>lv_cache = cache, lv_href = hv, lv_title = tv, lv_page_results = results\<rparr>"
  show ?case
  proof (cases "first_or_None (row_href r1)")
    case None
    then have "text_lite_rows e (zip_from 0 (r1 # rows)) ?v =
         text_lite_rows e (zip_from 0 (drop 3 rows)) (?v\<lparr>lv_href := Bound None\<rparr>)"
      using lite_rows_skip[of r1 ?v e rows] by simp
    with 2(1)[OF None, of "Bound None" tv] None show ?thesis by simp
  next
    case (Some h)
    show ?thesis
    proof (cases "h \<in> cache \<or> startswith h filtered_prefixes")
      case True
      then have "text_lite_rows e (zip_from 0 (r1 # rows)) ?v =
         text_lite_rows e (zip_from 0 (drop 3 rows)) (?v\<lparr>lv_href := Bound (Some h)\<rparr>)"
        using lite_rows_skip[of r1 ?v e rows] Some by simp
      with 2(2)[OF Some True, of "Bound (Some h)" tv] Some True show ?thesis by simp
    next
      case False
      show ?thesis
      proof (cases rows)
        case Nil
        with Some False show ?thesis by (simp add: zip_from_Cons)
      next
        case (Cons r2 rows')
        let ?res = "if h \<noteq> [] then
                      results @
                        [\<lparr>title = normalize e (first_or_empty (row_a_text r1)),
                          href = normalize_url e h,
                          body = normalize e (strip (concat (row_snippet r2)))\<rparr>]
                    else results"
        have step: "text_lite_rows e (zip_from 0 (r1 # rows)) ?v =
           text_lite_rows e (zip_from 0 (drop 3 rows))
             \<lparr>lv_cache = insert h cache, lv_href = Bound (Some h),
              lv_title = Bound (first_or_empty (row_a_text r1)), lv_page_results = ?res\<rparr>"
          using Some False Cons
          by (simp add: zip_from_Cons Let_def lite_rows_after_snippet)
        from 2(3)[OF Some False Cons, of "Bound (Some h)" "Bound (first_or_empty (row_a_text r1))"]
        show ?thesis using Some False Cons step by simp
      qed
    qed
  qed
qed

lemma lite_blocks_append:
  "length pre mod 4 = 0 \<Longrightarrow>
   lite_blocks e (pre @ xs) cache results =
     lite_blocks e xs (fst (lite_blocks e pre cache results))
       (snd (lite_blocks e pre cache results))"
proof (induction e pre cache results rule: lite_blocks.induct)
  case (1 e cache results)
  then show ?case by simp
next
  case (2 e r1 rows cache results)
  from 2(4) have "Suc (length rows) mod 4 = 0" by simp
  then have len: "3 \<le> length rows" "length (drop 3 rows) mod 4 = 0"
    by (simp_all, presburger+)
  then obtain r2 rows' where rows: "rows = r2 # rows'"
    by (cases rows) auto
  have d: "drop 3 (rows @ xs) = drop 3 rows @ xs"
    using len(1) by simp
  show ?case
  proof (cases "first_or_None (row_href r1)")
    case None
    with 2(1)[OF None len(2)] d show ?thesis by simp
  next
    case (Some h)
    show ?thesis
    proof (cases "h \<in> cache \<or> startswith h filtered_prefixes")
      case True
      with 2(2)[OF Some True len(2)] Some d show ?thesis by simp
    next
      case False
      from 2(3)[OF Some False rows len(2)] Some False rows d show ?thesis
        by simp
    qed
  qed
qed

text \<open>
  Claim C6. Let the rows of a lite page be \<open>pre @ r1 # rows\<close>, where \<open>pre\<close> is any number of
  complete runs of four rows, so that \<open>r1\<close> is at cycle position 1, and let \<open>r1\<close> be filtered
  out: it has no link, or its link is in the cache when the loop reaches it, or the link
  starts with one of the two filtered prefixes. Then the page is parsed exactly as the page
  without \<open>r1\<close> and the three rows after it (or the fewer that are left): same results, same
  cache. So the row after the skipped run is at position 1 again and every later run is read
  as if the filtered run were not there.
\<close>
theorem lite_row_resynchronisation:
  assumes "length pre mod 4 = 0"
    and "first_or_None (row_href r1) = None \<or>
         (\<exists>h. first_or_None (row_href r1) = Some h \<and>
              (h \<in> lv_cache (fst (text_lite_rows e (zip_cycle pre)
                       \<lparr>lv_cache = cache, lv_href = Unbound, lv_title = Unbound,
                        lv_page_results = []\<rparr>)) \<or>
               startswith h filtered_prefixes))"
  shows "snd (text_lite_rows e (zip_cycle (pre @ r1 # rows))
                \<lparr>lv_cache = cache, lv_href = Unbound, lv_title = Unbound, lv_page_results = []\<rparr>) =
         snd (text_lite_rows e (zip_cycle (pre @ drop 3 rows))
                \<lparr>lv_cache = cache, lv_href = Unbound, lv_title = Unbound, lv_page_results = []\<rparr>) \<and>
         lv_cache (fst (text_lite_rows e (zip_cycle (pre @ r1 # rows))
                \<lparr>lv_cache = cache, lv_href = Unbound, lv_title = Unbound, lv_page_results = []\<rparr>)) =
         lv_cache (fst (text_lite_rows e (zip_cycle (pre @ drop 3 rows))
                \<lparr>lv_cache = cache, lv_href = Unbound, lv_title = Unbound, lv_page_results = []\<rparr>))"
proof -
  let ?c = "fst (lite_blocks e pre cache [])"
  let ?r = "snd (lite_blocks e pre cache [])"
  have f: "first_or_None (row_href r1) = None \<or>
         (\<exists>h. first_or_None (row_href r1) = Some h \<and> (h \<in> ?c \<or> startswith h filtered_prefixes))"
    using assms(2) lite_rows_blocks[of e pre cache Unbound Unbound "[]"]
    by (simp add: zip_cycle_from)
  have "lite_blocks e (r1 # rows) ?c ?r = lite_blocks e (drop 3 rows) ?c ?r"
    using f by auto
  then have "lite_blocks e (pre @ r1 # rows) cache [] = lite_blocks e (pre @ drop 3 rows) cache []"
    using lite_blocks_append[OF assms(1)] by simp
  then show ?thesis
    using lite_rows_blocks[of e "pre @ r1 # rows" cache Unbound Unbound "[]"]
      lite_rows_blocks[of e "pre @ drop 3 rows" cache Unbound Unbound "[]"]
    by (simp add: zip_cycle_from)
qed

theorem lite_row_resynchronisation_witness:
  "snd (text_lite_rows (stub_env (status_response 200 []) [] [] [] None [])
          (zip_cycle
             ([lite_link ''https://cats.example'' ''Cats'', lite_snippet ''About cats'',
               lite_blank, lite_blank] @
              lite_link ''https://cats.example'' ''Cats again'' #
              [lite_snippet ''More cats'', lite_blank, lite_blank,
               lite_link ''https://dogs.example'' ''Dogs'', lite_snippet ''About dogs'']))
          \<lparr>lv_cache = {}, lv_href = Unbound, lv_title = Unbound, lv_page_results = []\<rparr>) =
     Inr [\<lparr>title = ''Cats'', href = ''https://cats.example'', body = ''About cats''\<rparr>,
          \<lparr>title = ''Dogs'', href = ''https://dogs.example'', body = ''About dogs''\<rparr>]"
proof -
  let ?e = "stub_env (status_response 200 []) [] [] [] None []"
  let ?pre = "[lite_link ''https://cats.example'' ''Cats'', lite_snippet ''About cats'',
               lite_blank, lite_blank]"
  let ?rows = "[lite_snippet ''More cats'', lite_blank, lite_blank,
               lite_link ''https://dogs.example'' ''Dogs'', lite_snippet ''About dogs'']"
  let ?v = "\<lparr>lv_cache = {}, lv_href = Unbound, lv_title = Unbound, lv_page_results = []\<rparr>"
  have l: "length ?pre mod 4 = 0" by simp
  have h: "first_or_None (row_href (lite_link ''https://cats.example'' ''Cats again'')) =
             Some ''https://cats.example''"
    by (simp add: first_or_None_def lite_link_def)
  have c: "''https://cats.example'' \<in> lv_cache (fst (text_lite_rows ?e (zip_cycle ?pre) ?v))"
    by code_simp
  have r: "snd (text_lite_rows ?e (zip_cycle (?pre @ drop 3 ?rows)) ?v) =
     Inr [\<lparr>title = ''Cats'', href = ''https://cats.example'', body = ''About cats''\<rparr>,
          \<lparr>title = ''Dogs'', href = ''https://dogs.example'', body = ''About dogs''\<rparr>]"
    by code_simp
  show ?thesis
    using lite_row_resynchronisation[of ?pre "lite_link ''https://cats.example'' ''Cats again''"
            ?e "{}" ?rows, OF l] h c r
    by simp
qed


subsection \<open>Deduplication in the JSON backend\<close>

lemma api_keyed_Nil [simp]: "api_keyed k [] = []"
  by (simp add: api_keyed_def)


lemma api_first_seen_Nil [simp]: "api_first_seen k c [] = []"
  by (simp add: api_first_seen_def)












subsection \<open>The length of the result of a text search\<close>

lemma text_slist_None: "text_slist None = ([0], None)"
  by (simp add: text_slist_def slist_of_def)

lemma text_slist_Some_snd: "snd (text_slist (Some n)) = Some (min n 2023)"
  by (simp add: text_slist_def slist_of_def Let_def)

lemma islice_Some:
  "islice xs (Some m) = Inr r \<Longrightarrow> 0 \<le> m \<and> r = take (nat m) xs"
  by (auto simp: islice_def split: if_splits)

lemma executor_map_single:
  "executor_map page [s] sc [] = (sc', Inr r) \<Longrightarrow> page s sc = (sc', Inr r)"
  by (auto split: prod.splits sum.splits)

lemma text_api_returns:
  assumes "text_api e st k rg ss tlm mr = (st', Inr r)"
  shows "\<exists>payload st1 sc merged.
           executor_map (text_api_page e k payload) (fst (text_slist mr)) (st1, {}) [] =
             (sc, Inr merged) \<and>
           islice merged (snd (text_slist mr)) = Inr r"
  using assms
  by (auto simp: text_api_def split: if_splits prod.splits sum.splits) blast

lemma text_html_returns:
  assumes "text_html e st k rg tlm mr = (st', Inr r)"
  shows "\<exists>payload st1 sc merged.
           executor_map (text_html_page e payload) (fst (text_slist mr)) (st1, {}) [] =
             (sc, Inr merged) \<and>
           islice merged (snd (text_slist mr)) = Inr r"
  using assms
  by (auto simp: text_html_def split: if_splits prod.splits sum.splits option.splits) blast+

lemma text_lite_returns:
  assumes "text_lite e st k rg tlm mr = (st', Inr r)"
  shows "\<exists>payload st1 sc merged.
           executor_map (text_lite_page e payload) (fst (text_slist mr)) (st1, {}) [] =
             (sc, Inr merged) \<and>
           islice merged (snd (text_slist mr)) = Inr r"
  using assms
  by (auto simp: text_lite_def split: if_splits prod.splits sum.splits) blast

lemma ddgs_text_returns:
  assumes "ddgs_text e st k rg ss tlm b mr = (st', Inr r)"
  shows "\<exists>page st1 sc merged.
           ((\<exists>payload. page = text_api_page e k payload) \<or>
            (\<exists>payload. page = text_html_page e payload) \<or>
            (\<exists>payload. page = text_lite_page e payload)) \<and>
           executor_map page (fst (text_slist mr)) (st1, {}) [] = (sc, Inr merged) \<and>
           islice merged (snd (text_slist mr)) = Inr r"
proof -
  consider "text_api e st k rg ss tlm mr = (st', Inr r)"
    | "text_html e st k rg tlm mr = (st', Inr r)"
    | "text_lite e st k rg tlm mr = (st', Inr r)"
    using assms by (auto simp: ddgs_text_def Let_def split: if_splits)
  then show ?thesis
  proof cases
    case 1
    from text_api_returns[OF this] show ?thesis by blast
  next
    case 2
    from text_html_returns[OF this] show ?thesis by blast
  next
    case 3
    from text_lite_returns[OF this] show ?thesis by blast
  qed
qed

text \<open>
  Claim C1. When \<^verbatim>\<open>text\<close> returns a list (with any of the three backends), the list comes
  from the merged results of the scheduled pages, run from an empty cache: with a maximum
  \<open>n\<close> it is the first \<open>min n 2023\<close> of them, \<open>n\<close> is not negative (\<^verbatim>\<open>islice\<close> raises on a
  negative one) and the list has at most \<open>n\<close> items; without a maximum only offset 0 is
  scheduled and the list is exactly what the page of offset 0 returns.
\<close>
theorem text_result_bounded:
  assumes "ddgs_text e st keywords region safesearch timelimit backend max_results = (st', Inr r)"
  shows "\<exists>page st1 sc merged.
           ((\<exists>payload. page = text_api_page e keywords payload) \<or>
            (\<exists>payload. page = text_html_page e payload) \<or>
            (\<exists>payload. page = text_lite_page e payload)) \<and>
           executor_map page (fst (text_slist max_results)) (st1, {}) [] = (sc, Inr merged) \<and>
           (case max_results of
              None \<Rightarrow> fst (text_slist max_results) = [0] \<and> page 0 (st1, {}) = (sc, Inr r) \<and>
                        r = merged
            | Some n \<Rightarrow> 0 \<le> n \<and> r = take (nat (min n 2023)) merged \<and> int (length r) \<le> n)"
proof -
  from ddgs_text_returns[OF assms] obtain page st1 sc merged where
    p: "(\<exists>payload. page = text_api_page e keywords payload) \<or>
        (\<exists>payload. page = text_html_page e payload) \<or>
        (\<exists>payload. page = text_lite_page e payload)"
    and m: "executor_map page (fst (text_slist max_results)) (st1, {}) [] = (sc, Inr merged)"
    and i: "islice merged (snd (text_slist max_results)) = Inr r"
    by blast
  have "case max_results of
          None \<Rightarrow> fst (text_slist max_results) = [0] \<and> page 0 (st1, {}) = (sc, Inr r) \<and>
                    r = merged
        | Some n \<Rightarrow> 0 \<le> n \<and> r = take (nat (min n 2023)) merged \<and> int (length r) \<le> n"
  proof (cases max_results)
    case None
    with i have "r = merged" by (simp add: text_slist_None islice_def)
    moreover from m None have "page 0 (st1, {}) = (sc, Inr merged)"
      using executor_map_single[of page 0 "(st1, {})" sc merged] by (simp add: text_slist_None)
    ultimately show ?thesis using None by (simp add: text_slist_None)
  next
    case (Some n)
    with i have "islice merged (Some (min n 2023)) = Inr r"
      by (simp add: text_slist_Some_snd)
    from islice_Some[OF this] have "0 \<le> min n 2023" "r = take (nat (min n 2023)) merged"
      by simp_all
    then show ?thesis using Some by auto
  qed
  with p m show ?thesis by blast
qed

theorem text_result_bounded_witness:
  "ddgs_text (stub_env (status_response 200 [])
               [row_of ''https://a.example'' ''A'' ''about a'',
                row_of ''https://b.example'' ''B'' ''about b'',
                row_of ''https://c.example'' ''C'' ''about c''] [] [] None [])
      init ''cats'' ''wt-wt'' ''moderate'' None ''api'' (Some 2) =
     (fst (ddgs_text (stub_env (status_response 200 [])
               [row_of ''https://a.example'' ''A'' ''about a'',
                row_of ''https://b.example'' ''B'' ''about b'',
                row_of ''https://c.example'' ''C'' ''about c''] [] [] None [])
             init ''cats'' ''wt-wt'' ''moderate'' None ''api'' (Some 2)),
      Inr [\<lparr>title = ''A'', href = ''https://a.example'', body = ''about a''\<rparr>,
           \<lparr>title = ''B'', href = ''https://b.example'', body = ''about b''\<rparr>]) \<and>
   (\<exists>merged. [\<lparr>title = ''A'', href = ''https://a.example'', body = ''about a''\<rparr>,
               \<lparr>title = ''B'', href = ''https://b.example'', body = ''about b''\<rparr>] =
              take 2 merged) \<and>
   int (length [\<lparr>title = ''A'', href = ''https://a.example'', body = ''about a''\<rparr>,
                \<lparr>title = ''B'', href = ''https://b.example'', body = ''about b''\<rparr>]) \<le> 2"
proof -
  let ?e = "stub_env (status_response 200 [])
               [row_of ''https://a.example'' ''A'' ''about a'',
                row_of ''https://b.example'' ''B'' ''about b'',
                row_of ''https://c.example'' ''C'' ''about c''] [] [] None []"
  let ?r = "[\<lparr>title = ''A'', href = ''https://a.example'', body = ''about a''\<rparr>,
             \<lparr>title = ''B'', href = ''https://b.example'', body = ''about b''\<rparr>]"
  have s: "snd (ddgs_text ?e init ''cats'' ''wt-wt'' ''moderate'' None ''api'' (Some 2)) = Inr ?r"
    by code_simp
  have h: "ddgs_text ?e init ''cats'' ''wt-wt'' ''moderate'' None ''api'' (Some 2) =
     (fst (ddgs_text ?e init ''cats'' ''wt-wt'' ''moderate'' None ''api'' (Some 2)), Inr ?r)"
    using s by (simp add: prod_eq_iff)
  from text_result_bounded[OF h] have "\<exists>merged. ?r = take 2 merged"
    by auto
  with h show ?thesis by simp
qed


end
